theory Spec2Isabelle
  imports Main "HOL-Library.Word"
begin

unbundle bit_operations_syntax

section \<open>Python strings\<close>

text \<open>
  A Python \<open>str\<close> is modelled as a \<open>string\<close> whose characters are the code points
  below 256 (the Latin-1 block of Unicode), so \<open>length\<close> counts code points as Python's
  \<open>len\<close> does. The string methods below are the ones \<open>web_app.py\<close> calls.
\<close>

definition startswith :: "string \<Rightarrow> string \<Rightarrow> bool" where
  \<comment> \<open>\<open>s.startswith(p)\<close>\<close>
  "startswith s p = (take (length p) s = p)"

fun str_in :: "string \<Rightarrow> string \<Rightarrow> bool" where
  \<comment> \<open>\<open>sub in s\<close>: \<open>sub\<close> occurs in \<open>s\<close> as a contiguous substring\<close>
  "str_in sub [] = (sub = [])"
| "str_in sub (c # cs) = (startswith (c # cs) sub \<or> str_in sub cs)"

definition isspace_char :: "char \<Rightarrow> bool" where
  \<comment> \<open>the code points below 256 for which \<open>str.isspace\<close> holds\<close>
  "isspace_char c = ((of_char c :: nat) \<in> {9, 10, 11, 12, 13, 28, 29, 30, 31, 32, 133, 160})"

definition strip :: "string \<Rightarrow> string" where
  \<comment> \<open>\<open>s.strip()\<close>\<close>
  "strip s = rev (dropWhile isspace_char (rev (dropWhile isspace_char s)))"

definition isdigit_char :: "char \<Rightarrow> bool" where
  \<comment> \<open>the code points below 256 for which \<open>str.isdigit\<close> holds: the ASCII digits and
      the superscripts two, three and one\<close>
  "isdigit_char c = ((48 \<le> (of_char c :: nat) \<and> (of_char c :: nat) \<le> 57)
                     \<or> (of_char c :: nat) \<in> {178, 179, 185})"

definition isdigit :: "string \<Rightarrow> bool" where
  \<comment> \<open>\<open>s.isdigit()\<close>: false on the empty string\<close>
  "isdigit s = (s \<noteq> [] \<and> list_all isdigit_char s)"


section \<open>The download route\<close>

text \<open>
  \<open>os.path\<close> is \<open>posixpath\<close>: the separator is \<open>/\<close>.
  \<open>basename(p)\<close> is \<open>p[p.rfind('/') + 1:]\<close>, the part of \<open>p\<close> after its last
  separator.
\<close>

definition basename :: "string \<Rightarrow> string" where
  "basename p = rev (takeWhile (\<lambda>c. c \<noteq> CHR ''/'') (rev p))"

definition join :: "string \<Rightarrow> string \<Rightarrow> string" where
  \<comment> \<open>\<open>os.path.join(a, b)\<close>\<close>
  "join a b =
     (if startswith b ''/'' then b
      else if a = [] \<or> last a = CHR ''/'' then a @ b
      else a @ ''/'' @ b)"

definition ALLOWED_DOWNLOAD_FILES :: "string set" where
  "ALLOWED_DOWNLOAD_FILES = {''uncompressed_output.txt'', ''compressed_output.txt''}"

text \<open>
  The filesystem maps the path of every regular file to its bytes; \<open>os.path.isfile\<close>
  asks whether a path is in its domain and \<open>send_file\<close> reads the bytes. The route
  returns its response together with the filesystem accesses it made, in order.
  \<open>abort(n)\<close> ends the request with status \<open>n\<close>. \<open>OUTPUT_DIR\<close> is
  \<open>os.path.abspath(".")\<close>, fixed when the module is loaded: a parameter here.
  \<open>request.args.get("filename")\<close> is \<open>None\<close> when the parameter is missing.
\<close>

datatype fs_access = IsFile string | ReadFile string

datatype download_response = Abort nat | Attachment string string

definition download ::
  "string \<Rightarrow> (string \<rightharpoonup> string) \<Rightarrow> string option \<Rightarrow> download_response \<times> fs_access list"
where
  "download OUTPUT_DIR fs filename =
     (case filename of
        None \<Rightarrow> (Abort 404, [])
      | Some name \<Rightarrow>
          if name = [] then (Abort 404, [])
          else if basename name \<notin> ALLOWED_DOWNLOAD_FILES then (Abort 403, [])
          else
            let safe_path = join OUTPUT_DIR (basename name) in
            (case fs safe_path of
               None \<Rightarrow> (Abort 404, [IsFile safe_path])
             | Some bytes \<Rightarrow>
                 (Attachment safe_path bytes, [IsFile safe_path, ReadFile safe_path])))"

definition accessed_path :: "fs_access \<Rightarrow> string" where
  "accessed_path a = (case a of IsFile p \<Rightarrow> p | ReadFile p \<Rightarrow> p)"

definition artifact_paths :: "string \<Rightarrow> string set" where
  \<comment> \<open>the two artifact files, directly inside the output directory\<close>
  "artifact_paths OUTPUT_DIR = join OUTPUT_DIR ` ALLOWED_DOWNLOAD_FILES"



section \<open>Exceptions and the standard library\<close>

text \<open>
  A raised exception is a value. \<open>_is_safe_url\<close> tells \<open>ValueError\<close> (and its
  subclasses) from every other \<open>Exception\<close>, so the class is kept that far; the
  argument is the message, which is what \<open>str(e)\<close> returns. Both \<open>except\<close>
  clauses of the source name \<open>Exception\<close> or a subclass: the exceptions outside that
  class (\<open>SystemExit\<close>, \<open>KeyboardInterrupt\<close>) end the process rather than report
  an error, and are not modelled.
\<close>

datatype exn = ValueError string | Exception string

definition str :: "exn \<Rightarrow> string" where
  "str e = (case e of ValueError m \<Rightarrow> m | Exception m \<Rightarrow> m)"

text \<open>
  \<open>urlparse\<close> and \<open>ipaddress.ip_address\<close> belong to the Python standard library, not
  to this repository. They are parameters of the model: functions from the text to the
  result or to the exception raised. Of the parse result the code reads two attributes,
  \<open>scheme\<close> and \<open>hostname\<close> (\<open>None\<close> when the URL has no host).
\<close>

record parsed =
  scheme :: string
  hostname :: "string option"

datatype ipaddr = IPv4Address "32 word" | IPv6Address "128 word"

record lib =
  urlparse :: "string \<Rightarrow> exn + parsed"
  ip_address :: "string \<Rightarrow> exn + ipaddr"

text \<open>
  The four properties of an address object that the code reads are computed from the
  address alone, by membership in fixed networks: the tables of the \<open>ipaddress\<close>
  module (CPython 3.11). A network is its first address and its prefix length; an
  address \<open>a\<close> is in it when \<open>a & netmask == network_address\<close>.
\<close>

definition ipv4 :: "nat \<Rightarrow> nat \<Rightarrow> nat \<Rightarrow> nat \<Rightarrow> 32 word" where
  \<comment> \<open>the address written \<open>a.b.c.d\<close>\<close>
  "ipv4 a b c d = word_of_nat (((a * 256 + b) * 256 + c) * 256 + d)"

definition contains4 :: "32 word \<times> nat \<Rightarrow> 32 word \<Rightarrow> bool" where
  "contains4 net a = (a AND NOT (mask (32 - snd net)) = fst net)"

definition hextets :: "nat list \<Rightarrow> 128 word" where
  \<comment> \<open>the address written \<open>h0:h1:...:h7\<close>\<close>
  "hextets hs = word_of_nat (foldl (\<lambda>acc h. acc * 65536 + h) 0 hs)"

definition contains6 :: "128 word \<times> nat \<Rightarrow> 128 word \<Rightarrow> bool" where
  "contains6 net a = (a AND NOT (mask (128 - snd net)) = fst net)"

definition private_networks4 :: "(32 word \<times> nat) list" where
  "private_networks4 =
     [(ipv4 0 0 0 0, 8), (ipv4 10 0 0 0, 8), (ipv4 127 0 0 0, 8), (ipv4 169 254 0 0, 16),
      (ipv4 172 16 0 0, 12), (ipv4 192 0 0 0, 24), (ipv4 192 0 0 170, 31),
      (ipv4 192 0 2 0, 24), (ipv4 192 168 0 0, 16), (ipv4 198 18 0 0, 15),
      (ipv4 198 51 100 0, 24), (ipv4 203 0 113 0, 24), (ipv4 240 0 0 0, 4),
      (ipv4 255 255 255 255, 32)]"

definition private_networks_exceptions4 :: "(32 word \<times> nat) list" where
  "private_networks_exceptions4 = [(ipv4 192 0 0 9, 32), (ipv4 192 0 0 10, 32)]"

definition is_private4 :: "32 word \<Rightarrow> bool" where
  "is_private4 a =
     (list_ex (\<lambda>net. contains4 net a) private_networks4 \<and>
      list_all (\<lambda>net. \<not> contains4 net a) private_networks_exceptions4)"

definition private_networks6 :: "(128 word \<times> nat) list" where
  "private_networks6 =
     [(hextets [0, 0, 0, 0, 0, 0, 0, 1], 128), (hextets [0, 0, 0, 0, 0, 0, 0, 0], 128),
      (hextets [0, 0, 0, 0, 0, 0xffff, 0, 0], 96), (hextets [0x64, 0xff9b, 1, 0, 0, 0, 0, 0], 48),
      (hextets [0x100, 0, 0, 0, 0, 0, 0, 0], 64), (hextets [0x2001, 0, 0, 0, 0, 0, 0, 0], 23),
      (hextets [0x2001, 0xdb8, 0, 0, 0, 0, 0, 0], 32), (hextets [0x2002, 0, 0, 0, 0, 0, 0, 0], 16),
      (hextets [0xfc00, 0, 0, 0, 0, 0, 0, 0], 7), (hextets [0xfe80, 0, 0, 0, 0, 0, 0, 0], 10)]"

definition private_networks_exceptions6 :: "(128 word \<times> nat) list" where
  "private_networks_exceptions6 =
     [(hextets [0x2001, 1, 0, 0, 0, 0, 0, 1], 128), (hextets [0x2001, 1, 0, 0, 0, 0, 0, 2], 128),
      (hextets [0x2001, 3, 0, 0, 0, 0, 0, 0], 32), (hextets [0x2001, 4, 0x112, 0, 0, 0, 0, 0], 48),
      (hextets [0x2001, 0x20, 0, 0, 0, 0, 0, 0], 28), (hextets [0x2001, 0x30, 0, 0, 0, 0, 0, 0], 28)]"

definition reserved_networks6 :: "(128 word \<times> nat) list" where
  "reserved_networks6 =
     [(hextets [0, 0, 0, 0, 0, 0, 0, 0], 8), (hextets [0x100, 0, 0, 0, 0, 0, 0, 0], 8),
      (hextets [0x200, 0, 0, 0, 0, 0, 0, 0], 7), (hextets [0x400, 0, 0, 0, 0, 0, 0, 0], 6),
      (hextets [0x800, 0, 0, 0, 0, 0, 0, 0], 5), (hextets [0x1000, 0, 0, 0, 0, 0, 0, 0], 4),
      (hextets [0x4000, 0, 0, 0, 0, 0, 0, 0], 3), (hextets [0x6000, 0, 0, 0, 0, 0, 0, 0], 3),
      (hextets [0x8000, 0, 0, 0, 0, 0, 0, 0], 3), (hextets [0xA000, 0, 0, 0, 0, 0, 0, 0], 3),
      (hextets [0xC000, 0, 0, 0, 0, 0, 0, 0], 3), (hextets [0xE000, 0, 0, 0, 0, 0, 0, 0], 4),
      (hextets [0xF000, 0, 0, 0, 0, 0, 0, 0], 5), (hextets [0xF800, 0, 0, 0, 0, 0, 0, 0], 6),
      (hextets [0xFE00, 0, 0, 0, 0, 0, 0, 0], 9)]"

definition ipv4_mapped :: "128 word \<Rightarrow> 32 word option" where
  "ipv4_mapped a = (if drop_bit 32 a = 0xFFFF then Some (ucast a) else None)"

fun is_private :: "ipaddr \<Rightarrow> bool" where
  "is_private (IPv4Address a) = is_private4 a"
| "is_private (IPv6Address a) =
     (case ipv4_mapped a of
        Some m \<Rightarrow> is_private4 m
      | None \<Rightarrow>
          list_ex (\<lambda>net. contains6 net a) private_networks6 \<and>
          list_all (\<lambda>net. \<not> contains6 net a) private_networks_exceptions6)"

fun is_loopback :: "ipaddr \<Rightarrow> bool" where
  "is_loopback (IPv4Address a) = contains4 (ipv4 127 0 0 0, 8) a"
| "is_loopback (IPv6Address a) = (a = 1)"

fun is_link_local :: "ipaddr \<Rightarrow> bool" where
  "is_link_local (IPv4Address a) = contains4 (ipv4 169 254 0 0, 16) a"
| "is_link_local (IPv6Address a) = contains6 (hextets [0xfe80, 0, 0, 0, 0, 0, 0, 0], 10) a"

fun is_reserved :: "ipaddr \<Rightarrow> bool" where
  "is_reserved (IPv4Address a) = contains4 (ipv4 240 0 0 0, 4) a"
| "is_reserved (IPv6Address a) = list_ex (\<lambda>net. contains6 net a) reserved_networks6"


section \<open>The address safety check\<close>

text \<open>
  \<open>_is_safe_url\<close> (an Isabelle name cannot begin with an underscore). The outer
  \<open>try\<close> turns every exception into \<open>False\<close>; the inner one lets a
  \<open>ValueError\<close> of \<open>ip_address\<close> pass, the host then being a domain name.
\<close>

definition is_safe_url :: "lib \<Rightarrow> string \<Rightarrow> bool" where
  "is_safe_url lib url =
     (case urlparse lib url of
        Inl e \<Rightarrow> False
      | Inr p \<Rightarrow>
          (case hostname p of
             None \<Rightarrow> False
           | Some host \<Rightarrow>
               if host = [] then False
               else if host \<in> {''localhost'', ''metadata.google.internal''} then False
               else
                 (case ip_address lib host of
                    Inr addr \<Rightarrow>
                      if is_private addr \<or> is_loopback addr \<or> is_link_local addr
                         \<or> is_reserved addr
                      then False else True
                  | Inl (ValueError m) \<Rightarrow> True
                  | Inl (Exception m) \<Rightarrow> False)))"


section \<open>The request handler\<close>

text \<open>
  The collaborators of \<open>index\<close> are the functions imported from \<open>onefilellm\<close>,
  \<open>pyperclip.copy\<close>, and the file writes done with \<open>open(..., "w")\<close>. Each may
  read and change the world outside the handler (the files, the network, the
  clipboard) and may raise: a collaborator is a function from the world to a result or
  an exception, and the new world. The world is a type parameter, so nothing is assumed
  about what a collaborator does with it.
\<close>

record crawl_result =
  content :: string
  processed_urls :: "string list"

record 'w collaborators =
  process_github_repo :: "string \<Rightarrow> 'w \<Rightarrow> (exn + string) \<times> 'w"
  process_github_pull_request :: "string \<Rightarrow> 'w \<Rightarrow> (exn + string) \<times> 'w"
  process_github_issue :: "string \<Rightarrow> 'w \<Rightarrow> (exn + string) \<times> 'w"
  process_arxiv_pdf :: "string \<Rightarrow> 'w \<Rightarrow> (exn + string) \<times> 'w"
  fetch_youtube_transcript :: "string \<Rightarrow> 'w \<Rightarrow> (exn + string) \<times> 'w"
  crawl_and_extract_text :: "string \<Rightarrow> nat \<Rightarrow> bool \<Rightarrow> bool \<Rightarrow> 'w \<Rightarrow> (exn + crawl_result) \<times> 'w"
  process_doi_or_pmid :: "string \<Rightarrow> 'w \<Rightarrow> (exn + string) \<times> 'w"
  write_file :: "string \<Rightarrow> string \<Rightarrow> 'w \<Rightarrow> (exn + unit) \<times> 'w"
  preprocess_text :: "string \<Rightarrow> string \<Rightarrow> 'w \<Rightarrow> (exn + unit) \<times> 'w"
  safe_file_read :: "string \<Rightarrow> 'w \<Rightarrow> (exn + string) \<times> 'w"
  get_token_count :: "string \<Rightarrow> 'w \<Rightarrow> (exn + int) \<times> 'w"
  pyperclip_copy :: "string \<Rightarrow> 'w \<Rightarrow> (exn + unit) \<times> 'w"

text \<open>
  What the handler did is recorded as a trace: every call it made, with its arguments,
  and the exception that call raised, if any. The safety check is recorded too.
\<close>

datatype call =
    IsSafeUrl string
  | ProcessGithubRepo string
  | ProcessGithubPullRequest string
  | ProcessGithubIssue string
  | ProcessArxivPdf string
  | FetchYoutubeTranscript string
  | CrawlAndExtractText string nat bool bool
  | ProcessDoiOrPmid string
  | WriteFile string string
  | PreprocessText string string
  | SafeFileRead string
  | GetTokenCount string
  | PyperclipCopy string

type_synonym trace = "(call \<times> exn option) list"

type_synonym ('w, 'a) handler = "'w \<times> trace \<Rightarrow> (exn + 'a) \<times> ('w \<times> trace)"

definition raised :: "exn + 'a \<Rightarrow> exn option" where
  "raised r = (case r of Inl e \<Rightarrow> Some e | Inr v \<Rightarrow> None)"

definition invoke :: "call \<Rightarrow> ('w \<Rightarrow> (exn + 'a) \<times> 'w) \<Rightarrow> ('w, 'a) handler" where
  \<comment> \<open>call a collaborator and record the call\<close>
  "invoke c f = (\<lambda>(w, tr). case f w of (r, w') \<Rightarrow> (r, (w', tr @ [(c, raised r)])))"

definition check_safe :: "lib \<Rightarrow> string \<Rightarrow> ('w, bool) handler" where
  "check_safe lib url = (\<lambda>(w, tr). (Inr (is_safe_url lib url), (w, tr @ [(IsSafeUrl url, None)])))"

definition pure :: "exn + 'a \<Rightarrow> ('w, 'a) handler" where
  \<comment> \<open>a computation without effect: it returns or raises\<close>
  "pure r = (\<lambda>s. (r, s))"

definition and_then :: "('w, 'a) handler \<Rightarrow> ('a \<Rightarrow> ('w, 'b) handler) \<Rightarrow> ('w, 'b) handler" where
  \<comment> \<open>sequencing: an exception of the first statement skips the rest\<close>
  "and_then m k = (\<lambda>s. case m s of (Inl e, s') \<Rightarrow> (Inl e, s') | (Inr a, s') \<Rightarrow> k a s')"

text \<open>
  The page is the call of \<open>render_template_string\<close>: the template is fixed, so the
  response is determined by the keyword arguments passed, absent ones being \<open>None\<close>.
\<close>

record page =
  "output" :: "string option"
  uncompressed_token_count :: "int option"
  compressed_token_count :: "int option"

definition message_page :: "string \<Rightarrow> page" where
  \<comment> \<open>\<open>render_template_string(template, output=msg)\<close>\<close>
  "message_page msg =
     \<lparr>output = Some msg, uncompressed_token_count = None, compressed_token_count = None\<rparr>"

definition empty_page :: page where
  \<comment> \<open>\<open>render_template_string(template)\<close>\<close>
  "empty_page = \<lparr>output = None, uncompressed_token_count = None, compressed_token_count = None\<rparr>"

definition security_message :: string where
  "security_message = ''Error: URL rejected by security policy.''"

definition local_path_message :: string where
  "local_path_message = ''Error: Local path processing is not allowed via the web interface.''"

definition output_file :: string where "output_file = ''uncompressed_output.txt''"
definition processed_file :: string where "processed_file = ''compressed_output.txt''"
definition urls_list_file :: string where "urls_list_file = ''processed_urls.txt''"

fun join_lines :: "string list \<Rightarrow> string" where
  \<comment> \<open>\<open>'\n'.join(xs)\<close>\<close>
  "join_lines [] = []"
| "join_lines [x] = x"
| "join_lines (x # y # ys) = x @ [CHR 0x0A] @ join_lines (y # ys)"

definition write_artifacts :: "'w collaborators \<Rightarrow> string \<Rightarrow> ('w, page) handler" where
  \<comment> \<open>lines 129 to 148: what follows the \<open>if\<close> chain once \<open>final_output\<close> is bound\<close>
  "write_artifacts env final_output =
     and_then (invoke (WriteFile output_file final_output)
                 (write_file env output_file final_output)) (\<lambda>_.
     and_then (invoke (PreprocessText output_file processed_file)
                 (preprocess_text env output_file processed_file)) (\<lambda>_.
     and_then (invoke (SafeFileRead processed_file)
                 (safe_file_read env processed_file)) (\<lambda>compressed_text.
     and_then (invoke (GetTokenCount compressed_text)
                 (get_token_count env compressed_text)) (\<lambda>compressed_count.
     and_then (invoke (SafeFileRead output_file)
                 (safe_file_read env output_file)) (\<lambda>uncompressed_text.
     and_then (invoke (GetTokenCount uncompressed_text)
                 (get_token_count env uncompressed_text)) (\<lambda>uncompressed_count.
     and_then (invoke (PyperclipCopy uncompressed_text)
                 (pyperclip_copy env uncompressed_text)) (\<lambda>_.
     pure (Inr \<lparr>output = Some final_output,
                uncompressed_token_count = Some uncompressed_count,
                compressed_token_count = Some compressed_count\<rparr>))))))))"

definition index_try :: "'w collaborators \<Rightarrow> lib \<Rightarrow> string \<Rightarrow> ('w, page) handler" where
  \<comment> \<open>the body of the \<open>try\<close> statement, lines 100 to 148\<close>
  "index_try env lib input_path =
     and_then (pure (urlparse lib input_path)) (\<lambda>p.
       if str_in ''github.com'' input_path then
         and_then (check_safe lib input_path) (\<lambda>safe.
           if \<not> safe then pure (Inr (message_page security_message))
           else if str_in ''/pull/'' input_path then
             and_then (invoke (ProcessGithubPullRequest input_path)
                         (process_github_pull_request env input_path)) (write_artifacts env)
           else if str_in ''/issues/'' input_path then
             and_then (invoke (ProcessGithubIssue input_path)
                         (process_github_issue env input_path)) (write_artifacts env)
           else
             and_then (invoke (ProcessGithubRepo input_path)
                         (process_github_repo env input_path)) (write_artifacts env))
       else if scheme p \<in> {''http'', ''https''} then
         and_then (check_safe lib input_path) (\<lambda>safe.
           if \<not> safe then pure (Inr (message_page security_message))
           else if str_in ''youtube.com'' input_path \<or> str_in ''youtu.be'' input_path then
             and_then (invoke (FetchYoutubeTranscript input_path)
                         (fetch_youtube_transcript env input_path)) (write_artifacts env)
           else if str_in ''arxiv.org'' input_path then
             and_then (invoke (ProcessArxivPdf input_path)
                         (process_arxiv_pdf env input_path)) (write_artifacts env)
           else
             and_then (invoke (CrawlAndExtractText input_path 2 True True)
                         (crawl_and_extract_text env input_path 2 True True)) (\<lambda>crawl.
             and_then (invoke (WriteFile urls_list_file (join_lines (processed_urls crawl)))
                         (write_file env urls_list_file (join_lines (processed_urls crawl)))) (\<lambda>_.
             write_artifacts env (content crawl))))
       else if (startswith input_path ''10.'' \<and> str_in ''/'' input_path) \<or> isdigit input_path then
         and_then (invoke (ProcessDoiOrPmid input_path)
                     (process_doi_or_pmid env input_path)) (write_artifacts env)
       else pure (Inr (message_page local_path_message)))"

datatype http_method = GET | POST

definition index ::
  "'w collaborators \<Rightarrow> lib \<Rightarrow> http_method \<Rightarrow> string option \<Rightarrow> 'w \<Rightarrow> page \<times> 'w \<times> trace"
where
  \<comment> \<open>\<open>form_input\<close> is the form field \<open>input_path\<close>, \<open>None\<close> when the form has none\<close>
  "index env lib request_method form_input w =
     (if request_method = POST then
        let input_path = strip (case form_input of None \<Rightarrow> [] | Some v \<Rightarrow> v) in
        (case index_try env lib input_path (w, []) of
           (Inl e, s) \<Rightarrow> (message_page (''Error: '' @ str e), s)
         | (Inr pg, s) \<Rightarrow> (pg, s))
      else (empty_page, w, []))"

definition is_retrieval :: "call \<Rightarrow> bool" where
  \<comment> \<open>the calls of the seven retrieval backends\<close>
  "is_retrieval c =
     (case c of
        ProcessGithubRepo u \<Rightarrow> True | ProcessGithubPullRequest u \<Rightarrow> True
      | ProcessGithubIssue u \<Rightarrow> True | ProcessArxivPdf u \<Rightarrow> True
      | FetchYoutubeTranscript u \<Rightarrow> True | CrawlAndExtractText u d i g \<Rightarrow> True
      | ProcessDoiOrPmid u \<Rightarrow> True | _ \<Rightarrow> False)"

definition retrievals :: "trace \<Rightarrow> call list" where
  "retrievals tr = filter is_retrieval (map fst tr)"

definition safety_checks :: "trace \<Rightarrow> call list" where
  "safety_checks tr = filter (\<lambda>c. case c of IsSafeUrl u \<Rightarrow> True | _ \<Rightarrow> False) (map fst tr)"

definition errors_raised :: "trace \<Rightarrow> exn list" where
  \<comment> \<open>the exceptions that collaborators raised, in order\<close>
  "errors_raised tr = List.map_filter snd tr"


section \<open>The classification of the specification\<close>

text \<open>
  The source has no classifier of its own: the \<open>if\<close> chain of \<open>index\<close> decides and
  dispatches at once. \<open>spec_Classify\<close> is written from the specification's words (its
  ordered rules 1 to 4), to be compared with what \<open>index\<close> does. An input "parses as
  an HTTP/HTTPS URL" when the parser returns a result with one of these two schemes.
\<close>

datatype ClassifiedTarget =
    RepositoryRef string
  | PullRequestRef string
  | IssueRef string
  | DocumentRef string
  | VideoRef string
  | BibliographicRef string
  | GenericWebRef string
  | Rejected

definition parses_as_http :: "lib \<Rightarrow> string \<Rightarrow> bool" where
  "parses_as_http lib s =
     (case urlparse lib s of Inl e \<Rightarrow> False | Inr p \<Rightarrow> scheme p \<in> {''http'', ''https''})"

definition bibliographic_shape :: "string \<Rightarrow> bool" where
  "bibliographic_shape s = ((startswith s ''10.'' \<and> str_in ''/'' s) \<or> isdigit s)"

definition spec_Classify :: "lib \<Rightarrow> string \<Rightarrow> ClassifiedTarget" where
  "spec_Classify lib s =
     (if str_in ''github.com'' s then
        (if str_in ''/pull/'' s then PullRequestRef s
         else if str_in ''/issues/'' s then IssueRef s
         else RepositoryRef s)
      else if parses_as_http lib s then
        (if str_in ''youtube.com'' s \<or> str_in ''youtu.be'' s then VideoRef s
         else if str_in ''arxiv.org'' s then DocumentRef s
         else GenericWebRef s)
      else if bibliographic_shape s then BibliographicRef s
      else Rejected)"

definition network_bound :: "ClassifiedTarget \<Rightarrow> bool" where
  \<comment> \<open>the variants for which the specification computes a safety verdict\<close>
  "network_bound t = (case t of BibliographicRef s \<Rightarrow> False | Rejected \<Rightarrow> False | _ \<Rightarrow> True)"

definition backend_call :: "ClassifiedTarget \<Rightarrow> call list" where
  \<comment> \<open>the one backend call that serves a target\<close>
  "backend_call t =
     (case t of
        RepositoryRef s \<Rightarrow> [ProcessGithubRepo s]
      | PullRequestRef s \<Rightarrow> [ProcessGithubPullRequest s]
      | IssueRef s \<Rightarrow> [ProcessGithubIssue s]
      | DocumentRef s \<Rightarrow> [ProcessArxivPdf s]
      | VideoRef s \<Rightarrow> [FetchYoutubeTranscript s]
      | BibliographicRef s \<Rightarrow> [ProcessDoiOrPmid s]
      | GenericWebRef s \<Rightarrow> [CrawlAndExtractText s 2 True True]
      | Rejected \<Rightarrow> [])"


section \<open>A standard library and collaborators to run the model on\<close>

text \<open>
  To evaluate the model on concrete requests, \<open>stdlib\<close> instantiates the library
  parameters with \<open>urllib.parse.urlsplit\<close> (with the \<open>hostname\<close> property of its
  result) and \<open>ipaddress.ip_address\<close> as CPython 3.11 defines them. On strings of
  code points below 256 \<open>_checknetloc\<close> never raises, since no such character
  normalises under NFKC to one of \<open>/?#@:\<close>; it is left out. In the message of
  \<open>ip_address\<close> the \<open>repr\<close> of the text is written with single quotes, which is
  right for text free of quotes, backslashes and control characters.
\<close>

fun split_on :: "char \<Rightarrow> string \<Rightarrow> string list" where
  \<comment> \<open>\<open>s.split(sep)\<close> for a separator of one character\<close>
  "split_on sep [] = [[]]"
| "split_on sep (c # cs) =
     (if c = sep then [] # split_on sep cs
      else (case split_on sep cs of [] \<Rightarrow> [[c]] | x # xs \<Rightarrow> (c # x) # xs))"

definition ascii_digit :: "char \<Rightarrow> bool" where
  "ascii_digit c = (48 \<le> (of_char c :: nat) \<and> (of_char c :: nat) \<le> 57)"

definition int_of_digits :: "string \<Rightarrow> nat" where
  \<comment> \<open>\<open>int(s, 10)\<close> on ASCII digits\<close>
  "int_of_digits s = foldl (\<lambda>acc c. acc * 10 + (of_char c - 48)) 0 s"

definition parse_octet :: "string \<Rightarrow> nat option" where
  \<comment> \<open>\<open>IPv4Address._parse_octet\<close>; \<open>None\<close> where it raises\<close>
  "parse_octet octet_str =
     (if octet_str = [] then None
      else if \<not> list_all ascii_digit octet_str then None
      else if length octet_str > 3 then None
      else if octet_str \<noteq> ''0'' \<and> hd octet_str = CHR ''0'' then None
      else if int_of_digits octet_str > 255 then None
      else Some (int_of_digits octet_str))"

definition ipv4_octets :: "string \<Rightarrow> nat list option" where
  \<comment> \<open>\<open>IPv4Address._ip_int_from_string\<close>, octet by octet; \<open>None\<close> where it raises\<close>
  "ipv4_octets s =
     (if CHR ''/'' \<in> set s then None
      else if s = [] then None
      else
        (case map parse_octet (split_on CHR ''.'' s) of
           [Some a, Some b, Some c, Some d] \<Rightarrow> Some [a, b, c, d]
         | _ \<Rightarrow> None))"

definition IPv4Address_of_str :: "string \<Rightarrow> 32 word option" where
  \<comment> \<open>\<open>IPv4Address(s)\<close> for a string; \<open>None\<close> where it raises \<open>AddressValueError\<close>\<close>
  "IPv4Address_of_str s =
     (case ipv4_octets s of
        Some [a, b, c, d] \<Rightarrow> Some (ipv4 a b c d)
      | _ \<Rightarrow> None)"

definition hex_digit :: "char \<Rightarrow> bool" where
  \<comment> \<open>membership in \<open>_HEX_DIGITS\<close>\<close>
  "hex_digit c =
     (let n = (of_char c :: nat)
      in (48 \<le> n \<and> n \<le> 57) \<or> (65 \<le> n \<and> n \<le> 70) \<or> (97 \<le> n \<and> n \<le> 102))"

definition hex_value :: "char \<Rightarrow> nat" where
  "hex_value c =
     (let n = (of_char c :: nat)
      in if n \<le> 57 then n - 48 else if n \<le> 70 then n - 55 else n - 87)"

definition parse_hextet :: "string \<Rightarrow> nat option" where
  \<comment> \<open>\<open>IPv6Address._parse_hextet\<close>; \<open>int('', 16)\<close> raises too\<close>
  "parse_hextet hextet_str =
     (if \<not> list_all hex_digit hextet_str then None
      else if length hextet_str > 4 then None
      else if hextet_str = [] then None
      else Some (foldl (\<lambda>acc c. acc * 16 + hex_value c) 0 hextet_str))"

definition hex_text :: "nat \<Rightarrow> string" where
  \<comment> \<open>four hex digits of a number below 65536: \<open>'%x' % n\<close> up to leading zeros, which
      \<open>_parse_hextet\<close> accepts\<close>
  "hex_text n =
     map (\<lambda>k. ''0123456789abcdef'' ! (n div 16 ^ k mod 16)) [3, 2, 1, 0]"

definition ip_int_from_string6 :: "string \<Rightarrow> 128 word option" where
  \<comment> \<open>\<open>IPv6Address._ip_int_from_string\<close>; \<open>None\<close> where it raises\<close>
  "ip_int_from_string6 ip_str =
     (if ip_str = [] then None
      else
        let parts0 = split_on CHR '':'' ip_str in
        if length parts0 < 3 then None
        else
          (case (if CHR ''.'' \<in> set (last parts0)
                 then (case ipv4_octets (last parts0) of
                         Some [a, b, c, d] \<Rightarrow>
                           Some (butlast parts0 @ [hex_text (a * 256 + b), hex_text (c * 256 + d)])
                       | _ \<Rightarrow> None)
                 else Some parts0) of
             None \<Rightarrow> None
           | Some parts \<Rightarrow>
               if length parts > 9 then None
               else
                 let n = length parts;
                     skips = filter (\<lambda>i. parts ! i = []) [1..<n - 1]
                 in if length skips > 1 then None
                    else
                      (case (case skips of
                               [] \<Rightarrow>
                                 if n \<noteq> 8 \<or> hd parts = [] \<or> last parts = [] then None
                                 else Some (n, 0, 0)
                             | skip_index # _ \<Rightarrow>
                                 let hi0 = skip_index; lo0 = n - skip_index - 1 in
                                 if hd parts = [] \<and> hi0 - 1 \<noteq> 0 then None
                                 else if last parts = [] \<and> lo0 - 1 \<noteq> 0 then None
                                 else
                                   let hi = (if hd parts = [] then hi0 - 1 else hi0);
                                       lo = (if last parts = [] then lo0 - 1 else lo0)
                                   in if hi + lo \<ge> 8 then None
                                      else Some (hi, lo, 8 - (hi + lo))) of
                         None \<Rightarrow> None
                       | Some (hi, lo, skipped) \<Rightarrow>
                           let hs = map parse_hextet (take hi parts)
                                    @ replicate skipped (Some 0)
                                    @ map parse_hextet (drop (n - lo) parts)
                           in if list_all (\<lambda>h. h \<noteq> None) hs
                              then Some (hextets (map the hs)) else None)))"

definition IPv6Address_of_str :: "string \<Rightarrow> 128 word option" where
  \<comment> \<open>\<open>IPv6Address(s)\<close> for a string: the scope id after \<open>%\<close> is split off first\<close>
  "IPv6Address_of_str s =
     (if CHR ''/'' \<in> set s then None
      else
        let addr = takeWhile (\<lambda>c. c \<noteq> CHR ''%'') s;
            scope = drop (length addr + 1) s
        in if CHR ''%'' \<in> set s \<and> (scope = [] \<or> CHR ''%'' \<in> set scope) then None
           else ip_int_from_string6 addr)"

definition ip_address_std :: "string \<Rightarrow> exn + ipaddr" where
  \<comment> \<open>\<open>ipaddress.ip_address(s)\<close>: IPv4 is tried first, then IPv6\<close>
  "ip_address_std s =
     (case IPv4Address_of_str s of
        Some a \<Rightarrow> Inr (IPv4Address a)
      | None \<Rightarrow>
          (case IPv6Address_of_str s of
             Some a \<Rightarrow> Inr (IPv6Address a)
           | None \<Rightarrow>
               Inl (ValueError ([CHR 0x27] @ s @ [CHR 0x27]
                      @ '' does not appear to be an IPv4 or IPv6 address''))))"

definition lower_char :: "char \<Rightarrow> char" where
  \<comment> \<open>\<open>str.lower\<close> on a code point below 256\<close>
  "lower_char c =
     (let n = (of_char c :: nat)
      in if (65 \<le> n \<and> n \<le> 90) \<or> (192 \<le> n \<and> n \<le> 222 \<and> n \<noteq> 215)
         then char_of (n + 32) else c)"

definition scheme_char :: "char \<Rightarrow> bool" where
  \<comment> \<open>membership in \<open>scheme_chars\<close>\<close>
  "scheme_char c =
     (let n = (of_char c :: nat)
      in (97 \<le> n \<and> n \<le> 122) \<or> (65 \<le> n \<and> n \<le> 90) \<or> (48 \<le> n \<and> n \<le> 57)
         \<or> c \<in> {CHR ''+'', CHR ''-'', CHR ''.''})"

definition ascii_alpha :: "char \<Rightarrow> bool" where
  "ascii_alpha c =
     (let n = (of_char c :: nat) in (97 \<le> n \<and> n \<le> 122) \<or> (65 \<le> n \<and> n \<le> 90))"

definition split_scheme :: "string \<Rightarrow> string \<times> string" where
  \<comment> \<open>the scheme, lower-cased, and the rest of the URL after its colon\<close>
  "split_scheme url =
     (let pre = takeWhile (\<lambda>c. c \<noteq> CHR '':'') url
      in if CHR '':'' \<in> set url \<and> pre \<noteq> [] \<and> ascii_alpha (hd url) \<and> list_all scheme_char pre
         then (map lower_char pre, drop (length pre + 1) url)
         else ([], url))"

definition check_bracketed_host :: "string \<Rightarrow> exn option" where
  \<comment> \<open>\<open>_check_bracketed_host\<close>: the exception it raises, if any. The pattern is
      \<open>v\<close>, hex digits, a dot, and at least one more character.\<close>
  "check_bracketed_host h =
     (if startswith h ''v'' then
        let hex = takeWhile hex_digit (tl h); rest = dropWhile hex_digit (tl h)
        in if hex \<noteq> [] \<and> startswith rest ''.'' \<and> tl rest \<noteq> [] then None
           else Some (ValueError ''IPvFuture address is invalid'')
      else
        (case ip_address_std h of
           Inl e \<Rightarrow> Some e
         | Inr (IPv4Address a) \<Rightarrow> Some (ValueError ''An IPv4 address cannot be in brackets'')
         | Inr (IPv6Address a) \<Rightarrow> None))"

definition hostname_of_netloc :: "string \<Rightarrow> string option" where
  \<comment> \<open>the \<open>hostname\<close> property of the result, from its network location\<close>
  "hostname_of_netloc netloc =
     (let hostinfo = rev (takeWhile (\<lambda>c. c \<noteq> CHR ''@'') (rev netloc));
          host = (if CHR ''['' \<in> set hostinfo
                  then takeWhile (\<lambda>c. c \<noteq> CHR '']'')
                         (drop 1 (dropWhile (\<lambda>c. c \<noteq> CHR ''['') hostinfo))
                  else takeWhile (\<lambda>c. c \<noteq> CHR '':'') hostinfo)
      in if host = [] then None
         else Some (map lower_char (takeWhile (\<lambda>c. c \<noteq> CHR ''%'') host)
                    @ dropWhile (\<lambda>c. c \<noteq> CHR ''%'') host))"

definition urlparse_std :: "string \<Rightarrow> exn + parsed" where
  \<comment> \<open>\<open>urlsplit\<close>, as far as the scheme and the network location\<close>
  "urlparse_std url0 =
     (let url1 = dropWhile (\<lambda>c. (of_char c :: nat) \<le> 32) url0;
          url2 = filter (\<lambda>c. c \<notin> {CHR 0x09, CHR 0x0D, CHR 0x0A}) url1;
          (sch, url3) = split_scheme url2
      in if take 2 url3 = ''//'' then
           let netloc = takeWhile (\<lambda>c. c \<notin> {CHR ''/'', CHR ''?'', CHR ''#''}) (drop 2 url3);
               bracketed_host = takeWhile (\<lambda>c. c \<noteq> CHR '']'')
                                  (drop 1 (dropWhile (\<lambda>c. c \<noteq> CHR ''['') netloc))
           in if (CHR ''['' \<in> set netloc) \<noteq> (CHR '']'' \<in> set netloc)
              then Inl (ValueError ''Invalid IPv6 URL'')
              else if CHR ''['' \<in> set netloc \<and> check_bracketed_host bracketed_host \<noteq> None
              then Inl (the (check_bracketed_host bracketed_host))
              else Inr \<lparr>scheme = sch, hostname = hostname_of_netloc netloc\<rparr>
         else Inr \<lparr>scheme = sch, hostname = None\<rparr>)"

definition stdlib :: lib where
  "stdlib = \<lparr>urlparse = urlparse_std, ip_address = ip_address_std\<rparr>"

text \<open>
  \<open>demo_env\<close> is a set of collaborators over a world that is the list of files
  written, newest first. Its resolver is out of service: it raises.
\<close>

definition demo_read :: "string \<Rightarrow> (string \<times> string) list \<Rightarrow> (exn + string) \<times> (string \<times> string) list" where
  "demo_read path w =
     (case map_of w path of
        None \<Rightarrow> (Inl (Exception (''No such file: '' @ path)), w)
      | Some text \<Rightarrow> (Inr text, w))"

definition demo_env :: "(string \<times> string) list collaborators" where
  "demo_env =
     \<lparr>process_github_repo = (\<lambda>u w. (Inr (''repository '' @ u), w)),
      process_github_pull_request = (\<lambda>u w. (Inr (''pull request '' @ u), w)),
      process_github_issue = (\<lambda>u w. (Inr (''issue '' @ u), w)),
      process_arxiv_pdf = (\<lambda>u w. (Inr (''paper '' @ u), w)),
      fetch_youtube_transcript = (\<lambda>u w. (Inr (''transcript '' @ u), w)),
      crawl_and_extract_text = (\<lambda>u d i g w. (Inr \<lparr>content = ''site '' @ u, processed_urls = [u]\<rparr>, w)),
      process_doi_or_pmid = (\<lambda>u w. (Inl (Exception ''resolver unavailable''), w)),
      write_file = (\<lambda>path text w. (Inr (), (path, text) # w)),
      preprocess_text = (\<lambda>src dst w.
         case map_of w src of
           None \<Rightarrow> (Inl (Exception (''No such file: '' @ src)), w)
         | Some text \<Rightarrow> (Inr (), (dst, filter (\<lambda>c. c \<noteq> CHR '' '') text) # w)),
      safe_file_read = demo_read,
      get_token_count = (\<lambda>text w. (Inr (int (length text)), w)),
      pyperclip_copy = (\<lambda>text w. (Inr (), w))\<rparr>"


section \<open>Properties of handler computations\<close>

text \<open>
  Two properties of a handler computation, each kept by sequencing: \<open>appends P\<close>, that
  it only adds calls satisfying \<open>P\<close> to the end of the trace; \<open>surfaces\<close>, that
  started with no exception recorded it ends with none when it returns, and with none
  but the one it raises when it raises. A call is \<open>quiet\<close> when it is neither a
  retrieval nor a safety check.
\<close>

definition quiet :: "call \<Rightarrow> bool" where
  "quiet c = (\<not> is_retrieval c \<and> (case c of IsSafeUrl u \<Rightarrow> False | _ \<Rightarrow> True))"

definition appends :: "(call \<Rightarrow> bool) \<Rightarrow> ('w, 'a) handler \<Rightarrow> bool" where
  "appends P m =
     (\<forall>w tr. \<exists>rest. snd (snd (m (w, tr))) = tr @ rest \<and> list_all P (map fst rest))"

definition surfaces :: "('w, 'a) handler \<Rightarrow> bool" where
  "surfaces m =
     (\<forall>s r s'. errors_raised (snd s) = [] \<longrightarrow> m s = (r, s') \<longrightarrow>
        (case r of
           Inr a \<Rightarrow> errors_raised (snd s') = []
         | Inl e \<Rightarrow> set (errors_raised (snd s')) \<subseteq> {e}))"


section \<open>Facts about the download route\<close>

subsection \<open>Paths\<close>

lemma basename_no_sep: "CHR ''/'' \<notin> set (basename p)"
proof -
  have "\<forall>c \<in> set (takeWhile (\<lambda>c. c \<noteq> CHR ''/'') (rev p)). c \<noteq> CHR ''/''"
    by (metis (mono_tags, lifting) set_takeWhileD)
  then show ?thesis by (auto simp: basename_def)
qed

lemma basename_suffix: "\<exists>d. p = d @ basename p"
proof -
  have "rev p = takeWhile (\<lambda>c. c \<noteq> CHR ''/'') (rev p) @ dropWhile (\<lambda>c. c \<noteq> CHR ''/'') (rev p)"
    by simp
  then have "p = rev (dropWhile (\<lambda>c. c \<noteq> CHR ''/'') (rev p)) @ basename p"
    unfolding basename_def by (metis rev_append rev_rev_ident)
  then show ?thesis by blast
qed

lemma basename_id: "CHR ''/'' \<notin> set p \<Longrightarrow> basename p = p"
proof -
  assume "CHR ''/'' \<notin> set p"
  then have "\<forall>c \<in> set (rev p). c \<noteq> CHR ''/''" by auto
  then have "takeWhile (\<lambda>c. c \<noteq> CHR ''/'') (rev p) = rev p"
    by (simp add: takeWhile_eq_all_conv)
  then show ?thesis unfolding basename_def by (simp only: rev_rev_ident)
qed

lemma join_inside:
  "\<not> startswith b ''/'' \<Longrightarrow>
     join a b = (if a = [] \<or> last a = CHR ''/'' then a @ b else a @ ''/'' @ b)"
  by (simp add: join_def)

lemma allowed_no_sep: "n \<in> ALLOWED_DOWNLOAD_FILES \<Longrightarrow> CHR ''/'' \<notin> set n"
  by (auto simp: ALLOWED_DOWNLOAD_FILES_def)

lemma download_accesses_artifacts:
  "set (map accessed_path (snd (download OUTPUT_DIR fs filename))) \<subseteq> artifact_paths OUTPUT_DIR"
  by (auto simp: download_def artifact_paths_def accessed_path_def Let_def
           split: option.splits)


subsection \<open>Claims about the download route\<close>

text \<open>
  C10. A download request whose \<open>filename\<close> parameter is missing or empty is answered
  with 404: the test comes first, before the allow-list is consulted and with no
  filesystem access, so such a request is never answered with 403.
\<close>

theorem download_missing_filename_not_found:
  "download OUTPUT_DIR fs None = (Abort 404, []) \<and>
   download OUTPUT_DIR fs (Some []) = (Abort 404, []) \<and>
   fst (download OUTPUT_DIR fs None) \<noteq> Abort 403 \<and>
   fst (download OUTPUT_DIR fs (Some [])) \<noteq> Abort 403"
  by (simp add: download_def)


text \<open>
  C1 (as amended). For every non-empty requested file name, \<open>download\<close> strips the
  directory components and, with no filesystem access, answers 403 unless the stripped
  name is one of the two allow-listed names; an allow-listed name is looked up in the
  output directory only, giving 404 when the file is absent and its bytes when it is
  present. Every path the route touches is one of the two artifact paths inside the
  output directory.
\<close>

theorem download_allow_list:
  assumes "name \<noteq> []"
  shows "download OUTPUT_DIR fs (Some name) =
           (if basename name \<notin> ALLOWED_DOWNLOAD_FILES then (Abort 403, [])
            else (case fs (join OUTPUT_DIR (basename name)) of
                    None \<Rightarrow> (Abort 404, [IsFile (join OUTPUT_DIR (basename name))])
                  | Some bytes \<Rightarrow>
                      (Attachment (join OUTPUT_DIR (basename name)) bytes,
                       [IsFile (join OUTPUT_DIR (basename name)),
                        ReadFile (join OUTPUT_DIR (basename name))])))
         \<and> CHR ''/'' \<notin> set (basename name)
         \<and> (\<exists>d. name = d @ basename name)
         \<and> set (map accessed_path (snd (download OUTPUT_DIR fs (Some name))))
             \<subseteq> artifact_paths OUTPUT_DIR"
  using assms basename_no_sep[of name] basename_suffix[of name]
        download_accesses_artifacts[of OUTPUT_DIR fs "Some name"]
  by (simp add: download_def Let_def)

text \<open>
  C2 (as amended). For every requested name that contains a path separator and whose
  last component is not one of the two allow-listed names (such as
  \<open>../../etc/passwd\<close>), \<open>download\<close> answers 403 with no filesystem access.
\<close>

theorem download_foreign_path_forbidden:
  assumes "CHR ''/'' \<in> set name" and "basename name \<notin> ALLOWED_DOWNLOAD_FILES"
  shows "download OUTPUT_DIR fs (Some name) = (Abort 403, [])"
  using assms by (auto simp: download_def)

lemma artifact_paths_inside:
  "artifact_paths OUTPUT_DIR =
     (if OUTPUT_DIR = [] \<or> last OUTPUT_DIR = CHR ''/''
      then {OUTPUT_DIR @ ''uncompressed_output.txt'', OUTPUT_DIR @ ''compressed_output.txt''}
      else {OUTPUT_DIR @ ''/uncompressed_output.txt'', OUTPUT_DIR @ ''/compressed_output.txt''})"
  by (simp add: artifact_paths_def ALLOWED_DOWNLOAD_FILES_def join_def startswith_def)

theorem download_allow_list_counterexample:
  "basename [] \<notin> ALLOWED_DOWNLOAD_FILES
   \<and> download ''/srv/app'' (map_of []) (Some []) = (Abort 404, [])
   \<and> download ''/srv/app'' (map_of []) (Some []) \<noteq> (Abort 403, [])"
  by (simp add: download_def basename_def ALLOWED_DOWNLOAD_FILES_def)

lemma served_basename: "basename ''../../uncompressed_output.txt'' = ''uncompressed_output.txt''"
  by code_simp

theorem download_allow_list_witness:
  "''../../uncompressed_output.txt'' \<noteq> []
   \<and> download ''/srv/app'' (map_of [(''/srv/app/uncompressed_output.txt'', ''text'')])
        (Some ''../../uncompressed_output.txt'') =
       (Attachment ''/srv/app/uncompressed_output.txt'' ''text'',
        [IsFile ''/srv/app/uncompressed_output.txt'', ReadFile ''/srv/app/uncompressed_output.txt''])
   \<and> download ''/srv/app'' (map_of [(''/srv/app/uncompressed_output.txt'', ''text'')])
        (Some ''../../etc/passwd'') = (Abort 403, [])"
proof -
  have n1: "''../../uncompressed_output.txt'' \<noteq> []" and n2: "''../../etc/passwd'' \<noteq> []"
    by simp_all
  have b2: "basename ''../../etc/passwd'' = ''passwd''" by code_simp
  have j: "join ''/srv/app'' ''uncompressed_output.txt'' = ''/srv/app/uncompressed_output.txt''"
    by code_simp
  show ?thesis
    using download_allow_list[OF n1, of "''/srv/app''"
            "map_of [(''/srv/app/uncompressed_output.txt'', ''text'')]"]
          download_allow_list[OF n2, of "''/srv/app''"
            "map_of [(''/srv/app/uncompressed_output.txt'', ''text'')]"]
    by (simp add: served_basename b2 j ALLOWED_DOWNLOAD_FILES_def)
qed

theorem download_foreign_path_forbidden_counterexample:
  "CHR ''/'' \<in> set ''a/uncompressed_output.txt''
   \<and> download ''/srv/app'' (map_of [(''/srv/app/uncompressed_output.txt'', ''text'')])
        (Some ''a/uncompressed_output.txt'') =
       (Attachment ''/srv/app/uncompressed_output.txt'' ''text'',
        [IsFile ''/srv/app/uncompressed_output.txt'', ReadFile ''/srv/app/uncompressed_output.txt''])"
proof -
  have b: "basename ''a/uncompressed_output.txt'' = ''uncompressed_output.txt''" by code_simp
  have j: "join ''/srv/app'' ''uncompressed_output.txt'' = ''/srv/app/uncompressed_output.txt''"
    by code_simp
  show ?thesis by (simp add: download_def Let_def b j ALLOWED_DOWNLOAD_FILES_def)
qed

theorem download_foreign_path_forbidden_witness:
  "CHR ''/'' \<in> set ''../../etc/passwd''
   \<and> basename ''../../etc/passwd'' \<notin> ALLOWED_DOWNLOAD_FILES
   \<and> download ''/srv/app'' (map_of [(''/etc/passwd'', ''root:x:0:0'')]) (Some ''../../etc/passwd'')
       = (Abort 403, [])"
proof -
  have s: "CHR ''/'' \<in> set ''../../etc/passwd''" by simp
  have b: "basename ''../../etc/passwd'' = ''passwd''" by code_simp
  have n: "basename ''../../etc/passwd'' \<notin> ALLOWED_DOWNLOAD_FILES"
    by (simp add: b ALLOWED_DOWNLOAD_FILES_def)
  show ?thesis
    using s n download_foreign_path_forbidden[OF s n, of "''/srv/app''"
                "map_of [(''/etc/passwd'', ''root:x:0:0'')]"]
    by simp
qed


section \<open>Facts about the address safety check\<close>



lemma exc9: "ipv4 192 0 0 9 = 0xC0000009" by (simp add: ipv4_def)
lemma exc10: "ipv4 192 0 0 10 = 0xC000000A" by (simp add: ipv4_def)

lemma not_exception_10:
  assumes "contains4 (ipv4 10 0 0 0, 8) a"
  shows "list_all (\<lambda>net. \<not> contains4 net a) private_networks_exceptions4"
proof -
  have a: "a AND NOT (mask 24) = 0x0A000000"
    using assms by (simp add: contains4_def ipv4_def)
  have "a \<noteq> 0xC0000009" "a \<noteq> 0xC000000A"
    using a by (auto simp: mask_numeral)
  then show ?thesis
    by (simp add: private_networks_exceptions4_def contains4_def exc9 exc10)
qed

lemma not_exception_192_168:
  assumes "contains4 (ipv4 192 168 0 0, 16) a"
  shows "list_all (\<lambda>net. \<not> contains4 net a) private_networks_exceptions4"
proof -
  have a: "a AND NOT (mask 16) = 0xC0A80000"
    using assms by (simp add: contains4_def ipv4_def)
  have "a \<noteq> 0xC0000009" "a \<noteq> 0xC000000A"
    using a by (auto simp: mask_numeral)
  then show ?thesis
    by (simp add: private_networks_exceptions4_def contains4_def exc9 exc10)
qed

lemma is_private4_10: "contains4 (ipv4 10 0 0 0, 8) a \<Longrightarrow> is_private4 a"
  using not_exception_10[of a] by (simp add: is_private4_def private_networks4_def)

lemma is_private4_192_168: "contains4 (ipv4 192 168 0 0, 16) a \<Longrightarrow> is_private4 a"
  using not_exception_192_168[of a] by (simp add: is_private4_def private_networks4_def)

lemma is_safe_url_parse_error: "urlparse lib url = Inl e \<Longrightarrow> \<not> is_safe_url lib url"
  by (simp add: is_safe_url_def)

lemma is_safe_url_no_host:
  "urlparse lib url = Inr p \<Longrightarrow> hostname p = None \<or> hostname p = Some [] \<Longrightarrow> \<not> is_safe_url lib url"
  by (auto simp: is_safe_url_def)

lemma is_safe_url_denylist:
  "urlparse lib url = Inr p \<Longrightarrow>
   hostname p = Some ''localhost'' \<or> hostname p = Some ''metadata.google.internal'' \<Longrightarrow>
   \<not> is_safe_url lib url"
  by (auto simp: is_safe_url_def)

lemma is_safe_url_blocked_address:
  assumes "urlparse lib url = Inr p" and "hostname p = Some h"
      and "ip_address lib h = Inr addr"
      and "is_private addr \<or> is_loopback addr \<or> is_link_local addr \<or> is_reserved addr"
  shows "\<not> is_safe_url lib url"
  using assms by (simp add: is_safe_url_def)

text \<open>
  C3. \<open>_is_safe_url\<close> returns \<open>False\<close>, and never raises (it is a total function to
  a truth value: the outer \<open>except\<close> is the \<open>False\<close> branch), for every URL on
  which the parser raises or finds no host name, for every URL whose host name is
  \<open>localhost\<close> or \<open>metadata.google.internal\<close> whatever the scheme, and for every URL
  whose host name is the text of an IPv4 address in 127.0.0.0/8, 10.0.0.0/8,
  169.254.0.0/16 or 192.168.0.0/16.
\<close>

theorem is_safe_url_fails_closed:
  assumes "(\<exists>e. urlparse lib url = Inl e)
           \<or> (\<exists>p. urlparse lib url = Inr p \<and> (hostname p = None \<or> hostname p = Some []))
           \<or> (\<exists>p. urlparse lib url = Inr p
                  \<and> (hostname p = Some ''localhost''
                      \<or> hostname p = Some ''metadata.google.internal''))
           \<or> (\<exists>p h a. urlparse lib url = Inr p \<and> hostname p = Some h
                  \<and> ip_address lib h = Inr (IPv4Address a)
                  \<and> (contains4 (ipv4 127 0 0 0, 8) a \<or> contains4 (ipv4 10 0 0 0, 8) a
                      \<or> contains4 (ipv4 169 254 0 0, 16) a \<or> contains4 (ipv4 192 168 0 0, 16) a))"
  shows "is_safe_url lib url = False"
proof -
  consider (err) e where "urlparse lib url = Inl e"
    | (nohost) p where "urlparse lib url = Inr p" "hostname p = None \<or> hostname p = Some []"
    | (deny) p where "urlparse lib url = Inr p"
        "hostname p = Some ''localhost'' \<or> hostname p = Some ''metadata.google.internal''"
    | (ip) p h a where "urlparse lib url = Inr p" "hostname p = Some h"
        "ip_address lib h = Inr (IPv4Address a)"
        "contains4 (ipv4 127 0 0 0, 8) a \<or> contains4 (ipv4 10 0 0 0, 8) a
         \<or> contains4 (ipv4 169 254 0 0, 16) a \<or> contains4 (ipv4 192 168 0 0, 16) a"
    using assms by blast
  then show ?thesis
  proof cases
    case err
    then show ?thesis by (simp add: is_safe_url_parse_error)
  next
    case nohost
    then show ?thesis using is_safe_url_no_host by blast
  next
    case deny
    then show ?thesis using is_safe_url_denylist by blast
  next
    case ip
    have "is_private (IPv4Address a) \<or> is_loopback (IPv4Address a)
          \<or> is_link_local (IPv4Address a) \<or> is_reserved (IPv4Address a)"
      using ip(4) is_private4_10 is_private4_192_168 by auto
    then show ?thesis using ip(1-3) is_safe_url_blocked_address by blast
  qed
qed

text \<open>
  C4. For every URL whose host name is not the text of an IP address (\<open>ip_address\<close>
  raises \<open>ValueError\<close> on it) and is neither of the two denylisted names,
  \<open>_is_safe_url\<close> returns \<open>True\<close>: nothing is resolved, so a name that would
  resolve to a private address passes.
\<close>

theorem is_safe_url_allows_domain_names:
  assumes "urlparse lib url = Inr p" and "hostname p = Some h" and "h \<noteq> []"
      and "h \<noteq> ''localhost''" and "h \<noteq> ''metadata.google.internal''"
      and "ip_address lib h = Inl (ValueError m)"
  shows "is_safe_url lib url = True"
  using assms by (simp add: is_safe_url_def)

lemma meta_parse:
  "urlparse stdlib ''http://169.254.169.254/latest/meta-data/'' =
     Inr \<lparr>scheme = ''http'', hostname = Some ''169.254.169.254''\<rparr>"
  unfolding stdlib_def by code_simp

lemma meta_address:
  "ip_address stdlib ''169.254.169.254'' = Inr (IPv4Address (ipv4 169 254 169 254))"
proof -
  have "map parse_octet (split_on CHR ''.'' ''169.254.169.254'') =
          [Some 169, Some 254, Some 169, Some 254]"
    by code_simp
  then show ?thesis
    by (simp add: stdlib_def ip_address_std_def IPv4Address_of_str_def ipv4_octets_def)
qed

lemma meta_link_local: "contains4 (ipv4 169 254 0 0, 16) (ipv4 169 254 169 254)"
  by (simp add: ipv4_def contains4_def mask_numeral)

theorem is_safe_url_fails_closed_witness:
  "urlparse stdlib ''http://169.254.169.254/latest/meta-data/'' =
     Inr \<lparr>scheme = ''http'', hostname = Some ''169.254.169.254''\<rparr>
   \<and> ip_address stdlib ''169.254.169.254'' = Inr (IPv4Address (ipv4 169 254 169 254))
   \<and> contains4 (ipv4 169 254 0 0, 16) (ipv4 169 254 169 254)
   \<and> is_safe_url stdlib ''http://169.254.169.254/latest/meta-data/'' = False"
proof -
  have "is_safe_url stdlib ''http://169.254.169.254/latest/meta-data/'' = False"
    by (rule is_safe_url_fails_closed) (use meta_parse meta_address meta_link_local in force)
  then show ?thesis using meta_parse meta_address meta_link_local by simp
qed


lemma intranet_parse:
  "urlparse stdlib ''http://intranet.corp.example/admin'' =
     Inr \<lparr>scheme = ''http'', hostname = Some ''intranet.corp.example''\<rparr>"
  unfolding stdlib_def by code_simp

lemma intranet_address:
  "ip_address stdlib ''intranet.corp.example'' =
     Inl (ValueError (CHR 0x27 # ''intranet.corp.example'' @ CHR 0x27 #
            '' does not appear to be an IPv4 or IPv6 address''))"
proof -
  have "IPv4Address_of_str ''intranet.corp.example'' = None"
    by code_simp
  moreover have "IPv6Address_of_str ''intranet.corp.example'' = None"
    by code_simp
  ultimately show ?thesis by (simp add: stdlib_def ip_address_std_def)
qed

theorem is_safe_url_allows_domain_names_witness:
  "urlparse stdlib ''http://intranet.corp.example/admin'' =
     Inr \<lparr>scheme = ''http'', hostname = Some ''intranet.corp.example''\<rparr>
   \<and> ip_address stdlib ''intranet.corp.example'' =
       Inl (ValueError (CHR 0x27 # ''intranet.corp.example'' @ CHR 0x27 #
              '' does not appear to be an IPv4 or IPv6 address''))
   \<and> is_safe_url stdlib ''http://intranet.corp.example/admin'' = True"
proof -
  have "is_safe_url stdlib ''http://intranet.corp.example/admin'' = True"
    by (rule is_safe_url_allows_domain_names[OF intranet_parse _ _ _ _ intranet_address]) simp_all
  then show ?thesis using intranet_parse intranet_address by simp
qed


section \<open>Facts about the request handler\<close>

lemma appends_pure: "appends P (pure r)"
  by (simp add: appends_def pure_def)

lemma appends_invoke: "P c \<Longrightarrow> appends P (invoke c f)"
  by (auto simp: appends_def invoke_def split: prod.splits)

lemma appends_check_safe: "P (IsSafeUrl u) \<Longrightarrow> appends P (check_safe lib u)"
  by (simp add: appends_def check_safe_def)

lemma appends_and_then:
  assumes "appends P m" and "\<And>a. appends P (k a)"
  shows "appends P (and_then m k)"
  unfolding appends_def
proof (intro allI)
  fix w tr
  obtain r w1 tr1 where m: "m (w, tr) = (r, (w1, tr1))"
    by (metis prod.exhaust)
  from assms(1) obtain rest1 where t1: "tr1 = tr @ rest1" and p1: "list_all P (map fst rest1)"
    unfolding appends_def using m by (metis snd_conv)
  show "\<exists>rest. snd (snd (and_then m k (w, tr))) = tr @ rest \<and> list_all P (map fst rest)"
  proof (cases r)
    case (Inl e)
    then show ?thesis using m t1 p1 by (simp add: and_then_def)
  next
    case (Inr a)
    from assms(2)[of a] obtain rest2
      where t2: "snd (snd (k a (w1, tr1))) = tr1 @ rest2" and p2: "list_all P (map fst rest2)"
      unfolding appends_def by blast
    have "snd (snd (and_then m k (w, tr))) = tr @ (rest1 @ rest2)"
      using Inr m t1 t2 by (simp add: and_then_def)
    moreover have "list_all P (map fst (rest1 @ rest2))" using p1 p2 by simp
    ultimately show ?thesis by blast
  qed
qed

lemma appends_write_artifacts: "appends quiet (write_artifacts env x)"
  unfolding write_artifacts_def
  by (intro appends_and_then appends_invoke appends_pure) (simp_all add: quiet_def is_retrieval_def)

lemma errors_raised_append: "errors_raised (a @ b) = errors_raised a @ errors_raised b"
  by (simp add: errors_raised_def List.map_filter_def)

lemma errors_raised_mem: "(c, Some e) \<in> set tr \<Longrightarrow> e \<in> set (errors_raised tr)"
  by (force simp: errors_raised_def List.map_filter_def)

lemma surfaces_pure: "surfaces (pure r)"
  by (auto simp: surfaces_def pure_def split: sum.splits)

lemma surfaces_invoke: "surfaces (invoke c f)"
  by (auto simp: surfaces_def invoke_def raised_def errors_raised_def List.map_filter_def
           split: prod.splits sum.splits)

lemma surfaces_check_safe: "surfaces (check_safe lib u)"
  by (auto simp: surfaces_def check_safe_def errors_raised_def List.map_filter_def)

lemma surfaces_and_then:
  assumes "surfaces m" and "\<And>a. surfaces (k a)"
  shows "surfaces (and_then m k)"
  unfolding surfaces_def
proof (intro allI impI)
  fix s :: "'a \<times> trace" and r :: "exn + 'c" and s' :: "'a \<times> trace"
  assume clean: "errors_raised (snd s) = []" and run: "and_then m k s = (r, s')"
  obtain r1 s1 where m: "m s = (r1, s1)" by (metis prod.exhaust)
  have first: "case r1 of Inr a \<Rightarrow> errors_raised (snd s1) = []
                 | Inl e \<Rightarrow> set (errors_raised (snd s1)) \<subseteq> {e}"
    using assms(1) clean m unfolding surfaces_def by blast
  show "case r of Inr a \<Rightarrow> errors_raised (snd s') = []
          | Inl e \<Rightarrow> set (errors_raised (snd s')) \<subseteq> {e}"
  proof (cases r1)
    case (Inl e)
    then have "r = Inl e" "s' = s1" using run m by (simp_all add: and_then_def)
    then show ?thesis using first Inl by simp
  next
    case (Inr a)
    then have c1: "errors_raised (snd s1) = []" using first by simp
    have "k a s1 = (r, s')" using run m Inr by (simp add: and_then_def)
    then show ?thesis using assms(2)[of a] c1 unfolding surfaces_def by blast
  qed
qed

lemma surfaces_if: "(c \<Longrightarrow> surfaces a) \<Longrightarrow> (\<not> c \<Longrightarrow> surfaces b) \<Longrightarrow> surfaces (if c then a else b)"
  by simp

lemma surfaces_write_artifacts: "surfaces (write_artifacts env x)"
  unfolding write_artifacts_def
  by (intro surfaces_and_then surfaces_invoke surfaces_pure)

lemma surfaces_index_try: "surfaces (index_try env lib input_path)"
  unfolding index_try_def
  by (intro surfaces_and_then surfaces_if surfaces_invoke surfaces_pure surfaces_check_safe
        surfaces_write_artifacts)


lemma index_post:
  "index env lib POST form_input w =
     (case index_try env lib (strip (case form_input of None \<Rightarrow> [] | Some v \<Rightarrow> v)) (w, []) of
        (Inl e, s) \<Rightarrow> (message_page (''Error: '' @ str e), s)
      | (Inr pg, s) \<Rightarrow> (pg, s))"
  by (simp add: index_def)

lemma index_try_parse_error:
  "urlparse lib input_path = Inl e \<Longrightarrow> index_try env lib input_path s = (Inl e, s)"
  by (simp add: index_try_def and_then_def pure_def)

lemma is_safe_url_parses: "is_safe_url lib url \<Longrightarrow> \<exists>p. urlparse lib url = Inr p"
  by (cases "urlparse lib url") (simp_all add: is_safe_url_def)

lemma index_try_unsafe:
  assumes "urlparse lib input_path = Inr p"
      and "str_in ''github.com'' input_path \<or> scheme p \<in> {''http'', ''https''}"
      and "\<not> is_safe_url lib input_path"
  shows "index_try env lib input_path (w, tr) =
           (Inr (message_page security_message), (w, tr @ [(IsSafeUrl input_path, None)]))"
  using assms by (auto simp: index_try_def and_then_def pure_def check_safe_def)

lemma network_bound_classify:
  "network_bound (spec_Classify lib s) = (str_in ''github.com'' s \<or> parses_as_http lib s)"
  by (simp add: network_bound_def spec_Classify_def)

text \<open>
  C5 (as amended). For every network-bound input (one containing \<open>github.com\<close>, or
  parsing with scheme \<open>http\<close> or \<open>https\<close>) that fails the safety check, the handler
  invokes no collaborator and leaves the world, hence every file, as it was. When the
  parser accepts the input the response is the security-rejection message and the
  trace holds the safety check alone; when the parser itself raises, the handler never
  reaches the check and the response carries the parser's message instead.
\<close>

theorem index_rejects_unsafe_url:
  assumes "input_path = strip (case form_input of None \<Rightarrow> [] | Some v \<Rightarrow> v)"
      and "network_bound (spec_Classify lib input_path)"
      and "\<not> is_safe_url lib input_path"
  shows "index env lib POST form_input w =
           (case urlparse lib input_path of
              Inr p \<Rightarrow> (message_page security_message, w, [(IsSafeUrl input_path, None)])
            | Inl e \<Rightarrow> (message_page (''Error: '' @ str e), w, []))"
proof (cases "urlparse lib input_path")
  case (Inl e)
  then show ?thesis
    using assms(1) by (simp add: index_post index_try_parse_error)
next
  case (Inr p)
  have "str_in ''github.com'' input_path \<or> scheme p \<in> {''http'', ''https''}"
    using assms(2) Inr by (simp add: network_bound_classify parses_as_http_def)
  then have "index_try env lib input_path (w, []) =
               (Inr (message_page security_message), (w, [] @ [(IsSafeUrl input_path, None)]))"
    using Inr assms(3) by (intro index_try_unsafe)
  then show ?thesis
    using assms(1) Inr by (simp add: index_post)
qed

text \<open>
  C9. \<open>index\<close> is a total function to a page: no exception leaves it. Whenever a
  collaborator call made while handling a request raised \<open>e\<close> (a retrieval backend,
  the normalisation routine, the token counter, a file write or read, the clipboard),
  the response is the page whose output is \<open>"Error: "\<close> followed by \<open>str(e)\<close>,
  verbatim.
\<close>

theorem index_surfaces_collaborator_errors:
  assumes "(c, Some e) \<in> set (snd (snd (index env lib request_method form_input w)))"
  shows "fst (index env lib request_method form_input w) = message_page (''Error: '' @ str e)"
proof (cases request_method)
  case GET
  then show ?thesis using assms by (simp add: index_def)
next
  case POST
  define input_path where "input_path = strip (case form_input of None \<Rightarrow> [] | Some v \<Rightarrow> v)"
  obtain r s' where run: "index_try env lib input_path (w, []) = (r, s')"
    by (metis prod.exhaust)
  have clean: "errors_raised (snd (w, [])) = []"
    by (simp add: errors_raised_def List.map_filter_def)
  have inv: "case r of Inr a \<Rightarrow> errors_raised (snd s') = []
              | Inl e' \<Rightarrow> set (errors_raised (snd s')) \<subseteq> {e'}"
    using surfaces_index_try[of env lib input_path] clean run unfolding surfaces_def by blast
  have tr: "snd (snd (index env lib request_method form_input w)) = snd s'"
    using POST run by (cases r) (simp_all add: index_post input_path_def split: prod.splits)
  have mem: "e \<in> set (errors_raised (snd s'))"
    using assms tr errors_raised_mem by metis
  show ?thesis
  proof (cases r)
    case (Inl e')
    then have "e = e'" using inv mem by auto
    then show ?thesis using POST run Inl by (simp add: index_post input_path_def)
  next
    case (Inr a)
    then show ?thesis using inv mem by simp
  qed
qed


lemma pure_apply: "pure r s = (r, s)"
  by (simp add: pure_def)

lemma and_then_pure_Inr: "and_then (pure (Inr a)) k = k a"
  by (simp add: and_then_def pure_def)

lemma and_then_check_safe:
  "and_then (check_safe lib u) k (w, tr) = k (is_safe_url lib u) (w, tr @ [(IsSafeUrl u, None)])"
  by (simp add: and_then_def check_safe_def)

lemma dispatch_trace:
  "\<exists>x rest. snd (snd (and_then (invoke c f) (write_artifacts env) (w, tr))) = tr @ (c, x) # rest
             \<and> list_all quiet (map fst rest)"
proof -
  obtain r w' where f: "f w = (r, w')" by (metis prod.exhaust)
  show ?thesis
  proof (cases r)
    case (Inl e)
    then have "snd (snd (and_then (invoke c f) (write_artifacts env) (w, tr))) = tr @ (c, Some e) # []"
      using f by (simp add: and_then_def invoke_def raised_def)
    then show ?thesis by (intro exI[of _ "Some e"] exI[of _ "[]"]) simp
  next
    case (Inr a)
    obtain rest where
      m: "snd (snd (write_artifacts env a (w', tr @ [(c, None)]))) = (tr @ [(c, None)]) @ rest"
      and q: "list_all quiet (map fst rest)"
      using appends_write_artifacts[of env a] unfolding appends_def by blast
    have "snd (snd (and_then (invoke c f) (write_artifacts env) (w, tr))) = tr @ (c, None) # rest"
      using f Inr m by (simp add: and_then_def invoke_def raised_def)
    then show ?thesis using q by blast
  qed
qed

lemma retrievals_quiet: "list_all quiet (map fst rest) \<Longrightarrow> retrievals rest = []"
  by (induction rest) (auto simp: retrievals_def quiet_def)

lemma safety_checks_quiet: "list_all quiet (map fst rest) \<Longrightarrow> safety_checks rest = []"
  by (induction rest) (auto simp: safety_checks_def quiet_def split: call.splits)

lemma retrievals_Cons:
  "retrievals ((c, x) # tr) = (if is_retrieval c then c # retrievals tr else retrievals tr)"
  by (simp add: retrievals_def)

lemma safety_checks_Cons:
  "safety_checks ((c, x) # tr) =
     (case c of IsSafeUrl u \<Rightarrow> c # safety_checks tr | _ \<Rightarrow> safety_checks tr)"
  by (simp add: safety_checks_def split: call.splits)

lemma index_trace:
  "snd (snd (index env lib POST form_input w)) =
     snd (snd (index_try env lib (strip (case form_input of None \<Rightarrow> [] | Some v \<Rightarrow> v)) (w, [])))"
  by (simp add: index_post split: prod.splits sum.splits)

text \<open>
  C6. An input containing \<open>github.com\<close> is a pull-request reference when it contains
  \<open>/pull/\<close>, otherwise an issue reference when it contains \<open>/issues/\<close>, otherwise
  a repository reference: the pull test comes first. \<open>index\<close> follows this
  classification: when the safety check passes, the one retrieval backend it calls is
  the pull-request, issue or repository backend in that order of precedence, and when
  the check fails it calls none.
\<close>

theorem index_github_dispatch:
  assumes "input_path = strip (case form_input of None \<Rightarrow> [] | Some v \<Rightarrow> v)"
      and "str_in ''github.com'' input_path"
  shows "spec_Classify lib input_path =
           (if str_in ''/pull/'' input_path then PullRequestRef input_path
            else if str_in ''/issues/'' input_path then IssueRef input_path
            else RepositoryRef input_path)
         \<and> retrievals (snd (snd (index env lib POST form_input w))) =
             (if is_safe_url lib input_path
              then (if str_in ''/pull/'' input_path then [ProcessGithubPullRequest input_path]
                    else if str_in ''/issues/'' input_path then [ProcessGithubIssue input_path]
                    else [ProcessGithubRepo input_path])
              else [])"
proof
  show "spec_Classify lib input_path =
           (if str_in ''/pull/'' input_path then PullRequestRef input_path
            else if str_in ''/issues/'' input_path then IssueRef input_path
            else RepositoryRef input_path)"
    using assms(2) by (simp add: spec_Classify_def)
next
  let ?tr = "snd (snd (index env lib POST form_input w))"
  let ?c = "if str_in ''/pull/'' input_path then ProcessGithubPullRequest input_path
            else if str_in ''/issues/'' input_path then ProcessGithubIssue input_path
            else ProcessGithubRepo input_path"
  have tr: "?tr = snd (snd (index_try env lib input_path (w, [])))"
    using assms(1) by (simp add: index_trace)
  show "retrievals ?tr =
          (if is_safe_url lib input_path
           then (if str_in ''/pull/'' input_path then [ProcessGithubPullRequest input_path]
                 else if str_in ''/issues/'' input_path then [ProcessGithubIssue input_path]
                 else [ProcessGithubRepo input_path])
           else [])"
  proof (cases "is_safe_url lib input_path")
    case False
    have "retrievals ?tr = []"
    proof (cases "urlparse lib input_path")
      case (Inl e)
      then show ?thesis using tr by (simp add: index_try_parse_error retrievals_def)
    next
      case (Inr p)
      then have "index_try env lib input_path (w, []) =
               (Inr (message_page security_message), (w, [] @ [(IsSafeUrl input_path, None)]))"
        using assms(2) False by (intro index_try_unsafe) simp_all
      then show ?thesis using tr by (simp add: retrievals_def is_retrieval_def)
    qed
    then show ?thesis using False by simp
  next
    case True
    then obtain p where p: "urlparse lib input_path = Inr p"
      using is_safe_url_parses by blast
    have step: "index_try env lib input_path (w, []) =
            (if str_in ''/pull/'' input_path then
               and_then (invoke (ProcessGithubPullRequest input_path)
                           (process_github_pull_request env input_path)) (write_artifacts env)
             else if str_in ''/issues/'' input_path then
               and_then (invoke (ProcessGithubIssue input_path)
                           (process_github_issue env input_path)) (write_artifacts env)
             else
               and_then (invoke (ProcessGithubRepo input_path)
                           (process_github_repo env input_path)) (write_artifacts env))
              (w, [(IsSafeUrl input_path, None)])"
      using p assms(2) True
      by (simp add: index_try_def and_then_pure_Inr and_then_check_safe)
    have "\<exists>x rest. snd (snd (index_try env lib input_path (w, []))) =
                     [(IsSafeUrl input_path, None)] @ (?c, x) # rest
                   \<and> list_all quiet (map fst rest)"
      unfolding step
      using dispatch_trace[of "ProcessGithubPullRequest input_path" _ env w "[(IsSafeUrl input_path, None)]"]
            dispatch_trace[of "ProcessGithubIssue input_path" _ env w "[(IsSafeUrl input_path, None)]"]
            dispatch_trace[of "ProcessGithubRepo input_path" _ env w "[(IsSafeUrl input_path, None)]"]
      by simp
    then obtain x rest where
      t: "?tr = (IsSafeUrl input_path, None) # (?c, x) # rest" and q: "list_all quiet (map fst rest)"
      using tr by auto
    have "retrievals ?tr = [?c]"
      unfolding t by (simp add: retrievals_Cons retrievals_quiet[OF q] is_retrieval_def)
    then show ?thesis using True by simp
  qed
qed

text \<open>
  C7. An input without \<open>github.com\<close> that the parser returns with a scheme other than
  \<open>http\<close> and \<open>https\<close>, and that is all digits or begins with \<open>10.\<close> and
  contains \<open>/\<close>, is a bibliographic reference: the first call \<open>index\<close> makes is
  \<open>process_doi_or_pmid\<close> on the input, it is the only retrieval call, and no safety
  check is made.
\<close>

theorem index_bibliographic_dispatch:
  assumes "input_path = strip (case form_input of None \<Rightarrow> [] | Some v \<Rightarrow> v)"
      and "\<not> str_in ''github.com'' input_path"
      and "urlparse lib input_path = Inr p"
      and "scheme p \<notin> {''http'', ''https''}"
      and "(startswith input_path ''10.'' \<and> str_in ''/'' input_path) \<or> isdigit input_path"
  shows "spec_Classify lib input_path = BibliographicRef input_path
         \<and> map fst (take 1 (snd (snd (index env lib POST form_input w)))) = [ProcessDoiOrPmid input_path]
         \<and> retrievals (snd (snd (index env lib POST form_input w))) = [ProcessDoiOrPmid input_path]
         \<and> safety_checks (snd (snd (index env lib POST form_input w))) = []"
proof -
  let ?tr = "snd (snd (index env lib POST form_input w))"
  have cls: "spec_Classify lib input_path = BibliographicRef input_path"
    using assms(2-5) by (simp add: spec_Classify_def parses_as_http_def bibliographic_shape_def)
  have tr: "?tr = snd (snd (index_try env lib input_path (w, [])))"
    using assms(1) by (simp add: index_trace)
  have step: "index_try env lib input_path (w, []) =
                and_then (invoke (ProcessDoiOrPmid input_path) (process_doi_or_pmid env input_path))
                  (write_artifacts env) (w, [])"
    using assms(2-5) by (simp add: index_try_def and_then_pure_Inr)
  have "\<exists>x rest. snd (snd (index_try env lib input_path (w, []))) =
                   [] @ (ProcessDoiOrPmid input_path, x) # rest
                 \<and> list_all quiet (map fst rest)"
    unfolding step by (rule dispatch_trace)
  then obtain x rest where
    t: "?tr = (ProcessDoiOrPmid input_path, x) # rest" and q: "list_all quiet (map fst rest)"
    using tr by auto
  have "map fst (take 1 ?tr) = [ProcessDoiOrPmid input_path]"
    unfolding t by simp
  moreover have "retrievals ?tr = [ProcessDoiOrPmid input_path]"
    unfolding t by (simp add: retrievals_Cons retrievals_quiet[OF q] is_retrieval_def)
  moreover have "safety_checks ?tr = []"
    unfolding t by (simp add: safety_checks_Cons safety_checks_quiet[OF q])
  ultimately show ?thesis using cls by simp
qed

text \<open>
  C8. An input that matches none of the classification rules (no \<open>github.com\<close>, not
  parsing as an HTTP or HTTPS URL, not of bibliographic shape) is classified Rejected,
  and \<open>index\<close> answers with an error message for the user, calls no collaborator at
  all (no retrieval, no file read) and leaves the world unchanged. The message is the
  local-path rejection, or the parser's own message when the parser raised.
\<close>

theorem index_rejects_unrecognised:
  assumes "input_path = strip (case form_input of None \<Rightarrow> [] | Some v \<Rightarrow> v)"
      and "\<not> str_in ''github.com'' input_path"
      and "\<not> parses_as_http lib input_path"
      and "\<not> bibliographic_shape input_path"
  shows "spec_Classify lib input_path = Rejected
         \<and> index env lib POST form_input w =
             (message_page (case urlparse lib input_path of
                              Inr p \<Rightarrow> local_path_message
                            | Inl e \<Rightarrow> ''Error: '' @ str e), w, [])"
proof
  show "spec_Classify lib input_path = Rejected"
    using assms(2-4) by (simp add: spec_Classify_def)
next
  show "index env lib POST form_input w =
             (message_page (case urlparse lib input_path of
                              Inr p \<Rightarrow> local_path_message
                            | Inl e \<Rightarrow> ''Error: '' @ str e), w, [])"
  proof (cases "urlparse lib input_path")
    case (Inl e)
    then show ?thesis using assms(1) by (simp add: index_post index_try_parse_error)
  next
    case (Inr p)
    then have "index_try env lib input_path (w, []) = (Inr (message_page local_path_message), (w, []))"
      using assms(2-4)
      by (auto simp: index_try_def and_then_pure_Inr parses_as_http_def bibliographic_shape_def pure_apply)
    then show ?thesis using assms(1) Inr by (simp add: index_post)
  qed
qed


subsection \<open>The handler follows the classification\<close>

text \<open>
  Whenever the parser returns, the retrieval calls of \<open>index\<close> are those the
  specification's classifier prescribes: none for a network-bound target that fails the
  safety check, and otherwise the one backend call of the target (none for Rejected).
\<close>

lemma dispatch_trace_general:
  assumes "\<And>a. appends quiet (k a)"
  shows "\<exists>x rest. snd (snd (and_then (invoke c f) k (w, tr))) = tr @ (c, x) # rest
             \<and> list_all quiet (map fst rest)"
proof -
  obtain r w' where f: "f w = (r, w')" by (metis prod.exhaust)
  show ?thesis
  proof (cases r)
    case (Inl e)
    then have "snd (snd (and_then (invoke c f) k (w, tr))) = tr @ (c, Some e) # []"
      using f by (simp add: and_then_def invoke_def raised_def)
    then show ?thesis by (intro exI[of _ "Some e"] exI[of _ "[]"]) simp
  next
    case (Inr a)
    obtain rest where
      m: "snd (snd (k a (w', tr @ [(c, None)]))) = (tr @ [(c, None)]) @ rest"
      and q: "list_all quiet (map fst rest)"
      using assms[of a] unfolding appends_def by blast
    have "snd (snd (and_then (invoke c f) k (w, tr))) = tr @ (c, None) # rest"
      using f Inr m by (simp add: and_then_def invoke_def raised_def)
    then show ?thesis using q by blast
  qed
qed

lemma appends_crawl_rest:
  "appends quiet (and_then (invoke (WriteFile urls_list_file (join_lines (processed_urls crawl)))
                         (write_file env urls_list_file (join_lines (processed_urls crawl))))
                       (\<lambda>_. write_artifacts env (content crawl)))"
  by (intro appends_and_then appends_invoke appends_write_artifacts)
     (simp add: quiet_def is_retrieval_def)

lemma retrievals_dispatched:
  assumes "tr = pre @ (c, x) # rest" and "retrievals pre = []" and "is_retrieval c"
      and "list_all quiet (map fst rest)"
  shows "retrievals tr = [c]"
  using assms retrievals_quiet[OF assms(4)] by (simp add: retrievals_def)

lemma index_follows_spec_Classify:
  assumes "input_path = strip (case form_input of None \<Rightarrow> [] | Some v \<Rightarrow> v)"
      and "urlparse lib input_path = Inr p"
  shows "retrievals (snd (snd (index env lib POST form_input w))) =
           (if network_bound (spec_Classify lib input_path) \<and> \<not> is_safe_url lib input_path
            then [] else backend_call (spec_Classify lib input_path))"
proof -
  let ?tr = "snd (snd (index env lib POST form_input w))"
  let ?t = "spec_Classify lib input_path"
  have tr: "?tr = snd (snd (index_try env lib input_path (w, [])))"
    using assms(1) by (simp add: index_trace)
  have http: "parses_as_http lib input_path = (scheme p \<in> {''http'', ''https''})"
    using assms(2) by (simp add: parses_as_http_def)
  show ?thesis
  proof (cases "network_bound ?t")
    case False
    then have ng: "\<not> str_in ''github.com'' input_path" and nh: "\<not> parses_as_http lib input_path"
      by (simp_all add: network_bound_classify)
    show ?thesis
    proof (cases "bibliographic_shape input_path")
      case True
      have step: "index_try env lib input_path (w, []) =
                and_then (invoke (ProcessDoiOrPmid input_path) (process_doi_or_pmid env input_path))
                  (write_artifacts env) (w, [])"
        using assms(2) ng nh True http
        by (auto simp: index_try_def and_then_pure_Inr bibliographic_shape_def)
      obtain x rest where t: "?tr = (ProcessDoiOrPmid input_path, x) # rest"
          and q: "list_all quiet (map fst rest)"
        using dispatch_trace[of "ProcessDoiOrPmid input_path" _ env w "[]"] tr step
        by (metis append_Nil)
      have "retrievals ?tr = [ProcessDoiOrPmid input_path]"
        unfolding t by (simp add: retrievals_Cons retrievals_quiet[OF q] is_retrieval_def)
      then show ?thesis
        using False ng nh True by (simp add: spec_Classify_def backend_call_def)
    next
      case nb: False
      have "index_try env lib input_path (w, []) = (Inr (message_page local_path_message), (w, []))"
        using assms(2) ng nh nb http
        by (auto simp: index_try_def and_then_pure_Inr bibliographic_shape_def pure_apply)
      then have "retrievals ?tr = []" using tr by (simp add: retrievals_def)
      then show ?thesis
        using False ng nh nb by (simp add: spec_Classify_def backend_call_def)
    qed
  next
    case True
    then have nb: "str_in ''github.com'' input_path \<or> scheme p \<in> {''http'', ''https''}"
      using http by (simp add: network_bound_classify)
    show ?thesis
    proof (cases "is_safe_url lib input_path")
      case False
      have "index_try env lib input_path (w, []) =
               (Inr (message_page security_message), (w, [] @ [(IsSafeUrl input_path, None)]))"
        using assms(2) nb False by (intro index_try_unsafe)
      then have "retrievals ?tr = []" using tr by (simp add: retrievals_def is_retrieval_def)
      then show ?thesis using True False by simp
    next
      case safe: True
      let ?pre = "[(IsSafeUrl input_path, None)]"
      have pre: "retrievals ?pre = []" by (simp add: retrievals_def is_retrieval_def)
      have "\<exists>c x rest. backend_call ?t = [c] \<and> is_retrieval c
               \<and> snd (snd (index_try env lib input_path (w, []))) = ?pre @ (c, x) # rest
               \<and> list_all quiet (map fst rest)"
      proof (cases "str_in ''github.com'' input_path")
        case gh: True
        show ?thesis
        proof (cases "str_in ''/pull/'' input_path")
          case True
          have "index_try env lib input_path (w, []) =
                  and_then (invoke (ProcessGithubPullRequest input_path)
                    (process_github_pull_request env input_path)) (write_artifacts env) (w, ?pre)"
            using assms(2) gh safe True
            by (simp add: index_try_def and_then_pure_Inr and_then_check_safe)
          then show ?thesis
            using dispatch_trace[of "ProcessGithubPullRequest input_path" _ env w ?pre] gh True
            by (simp add: spec_Classify_def backend_call_def is_retrieval_def)
        next
          case np: False
          show ?thesis
          proof (cases "str_in ''/issues/'' input_path")
            case True
            have "index_try env lib input_path (w, []) =
                    and_then (invoke (ProcessGithubIssue input_path)
                      (process_github_issue env input_path)) (write_artifacts env) (w, ?pre)"
              using assms(2) gh safe np True
              by (simp add: index_try_def and_then_pure_Inr and_then_check_safe)
            then show ?thesis
              using dispatch_trace[of "ProcessGithubIssue input_path" _ env w ?pre] gh np True
              by (simp add: spec_Classify_def backend_call_def is_retrieval_def)
          next
            case False
            have "index_try env lib input_path (w, []) =
                    and_then (invoke (ProcessGithubRepo input_path)
                      (process_github_repo env input_path)) (write_artifacts env) (w, ?pre)"
              using assms(2) gh safe np False
              by (simp add: index_try_def and_then_pure_Inr and_then_check_safe)
            then show ?thesis
              using dispatch_trace[of "ProcessGithubRepo input_path" _ env w ?pre] gh np False
              by (simp add: spec_Classify_def backend_call_def is_retrieval_def)
          qed
        qed
      next
        case ng: False
        then have h: "scheme p \<in> {''http'', ''https''}" using nb by simp
        then have ph: "parses_as_http lib input_path" using http by simp
        show ?thesis
        proof (cases "str_in ''youtube.com'' input_path \<or> str_in ''youtu.be'' input_path")
          case True
          have "index_try env lib input_path (w, []) =
                  and_then (invoke (FetchYoutubeTranscript input_path)
                    (fetch_youtube_transcript env input_path)) (write_artifacts env) (w, ?pre)"
            using assms(2) ng h safe True
            by (simp add: index_try_def and_then_pure_Inr and_then_check_safe)
          then show ?thesis
            using dispatch_trace[of "FetchYoutubeTranscript input_path" _ env w ?pre] ng ph True
            by (simp add: spec_Classify_def backend_call_def is_retrieval_def)
        next
          case ny: False
          show ?thesis
          proof (cases "str_in ''arxiv.org'' input_path")
            case True
            have "index_try env lib input_path (w, []) =
                    and_then (invoke (ProcessArxivPdf input_path)
                      (process_arxiv_pdf env input_path)) (write_artifacts env) (w, ?pre)"
              using assms(2) ng h safe ny True
              by (simp add: index_try_def and_then_pure_Inr and_then_check_safe)
            then show ?thesis
              using dispatch_trace[of "ProcessArxivPdf input_path" _ env w ?pre] ng ph ny True
              by (simp add: spec_Classify_def backend_call_def is_retrieval_def)
          next
            case False
            have "index_try env lib input_path (w, []) =
                    and_then (invoke (CrawlAndExtractText input_path 2 True True)
                      (crawl_and_extract_text env input_path 2 True True))
                      (\<lambda>crawl. and_then (invoke (WriteFile urls_list_file (join_lines (processed_urls crawl)))
                         (write_file env urls_list_file (join_lines (processed_urls crawl))))
                       (\<lambda>_. write_artifacts env (content crawl))) (w, ?pre)"
              using assms(2) ng h safe ny False
              by (simp add: index_try_def and_then_pure_Inr and_then_check_safe)
            then show ?thesis
              using dispatch_trace_general[of _ "CrawlAndExtractText input_path 2 True True" _ w ?pre,
                      OF appends_crawl_rest] ng ph ny False
              by (simp add: spec_Classify_def backend_call_def is_retrieval_def)
          qed
        qed
      qed
      then obtain c x rest where bc: "backend_call ?t = [c]" and r: "is_retrieval c"
          and t: "?tr = ?pre @ (c, x) # rest" and q: "list_all quiet (map fst rest)"
        using tr by metis
      have "retrievals ?tr = [c]" using t pre r q by (rule retrievals_dispatched)
      then show ?thesis using bc safe by simp
    qed
  qed
qed


section \<open>The handler on concrete requests\<close>

text \<open>
  The theorems above hold for every library and every set of collaborators. Below they
  are applied to \<open>stdlib\<close> and \<open>demo_env\<close> on concrete requests. The first two
  lemmas show that the hypothesis of C7 on the parser costs nothing with \<open>stdlib\<close>:
  an input of bibliographic shape begins with a digit, so it has no scheme and no
  network location, and the parser returns.
\<close>

lemma urlparse_std_no_scheme:
  assumes "s = c # cs" and "32 < (of_char c :: nat)" and "\<not> ascii_alpha c" and "c \<noteq> CHR ''/''"
  shows "urlparse_std s = Inr \<lparr>scheme = [], hostname = None\<rparr>"
proof -
  have c9: "c \<noteq> CHR 0x09" and cD: "c \<noteq> CHR 0x0D" and cA: "c \<noteq> CHR 0x0A"
    using assms(2) by auto
  have d: "dropWhile (\<lambda>c. (of_char c :: nat) \<le> 32) s = s"
    using assms(1,2) by simp
  have f: "filter (\<lambda>c. c \<notin> {CHR 0x09, CHR 0x0D, CHR 0x0A}) s =
             c # filter (\<lambda>c. c \<notin> {CHR 0x09, CHR 0x0D, CHR 0x0A}) cs"
    using assms(1) c9 cD cA by simp
  have sp: "split_scheme (c # filter (\<lambda>c. c \<notin> {CHR 0x09, CHR 0x0D, CHR 0x0A}) cs) =
              ([], c # filter (\<lambda>c. c \<notin> {CHR 0x09, CHR 0x0D, CHR 0x0A}) cs)"
    using assms(3) by (simp add: split_scheme_def Let_def)
  show ?thesis
    unfolding urlparse_std_def d f Let_def sp using assms(4) by (cases cs) simp_all
qed

lemma stdlib_parses_bibliographic:
  assumes "bibliographic_shape s"
  shows "urlparse stdlib s = Inr \<lparr>scheme = [], hostname = None\<rparr>"
proof -
  obtain c cs where s: "s = c # cs" and c: "c = CHR ''1'' \<or> isdigit_char c"
  proof (cases s)
    case Nil
    then show ?thesis using assms by (simp add: bibliographic_shape_def startswith_def isdigit_def)
  next
    case (Cons c cs)
    then have "c = CHR ''1'' \<or> isdigit_char c"
      using assms by (auto simp: bibliographic_shape_def startswith_def isdigit_def)
    then show ?thesis using Cons that by blast
  qed
  have "32 < (of_char c :: nat)" "\<not> ascii_alpha c" "c \<noteq> CHR ''/''"
    using c by (auto simp: isdigit_char_def ascii_alpha_def Let_def)
  then show ?thesis
    using urlparse_std_no_scheme[OF s] by (simp add: stdlib_def)
qed

lemma meta_strip:
  "''http://169.254.169.254/latest/meta-data/'' =
     strip (case Some ''http://169.254.169.254/latest/meta-data/'' of None \<Rightarrow> [] | Some v \<Rightarrow> v)"
  by code_simp

lemma meta_network_bound:
  "network_bound (spec_Classify stdlib ''http://169.254.169.254/latest/meta-data/'')"
  by (simp add: network_bound_classify parses_as_http_def meta_parse)

lemma meta_unsafe: "\<not> is_safe_url stdlib ''http://169.254.169.254/latest/meta-data/''"
  using is_safe_url_blocked_address[OF meta_parse _ meta_address] meta_link_local by simp

theorem index_rejects_unsafe_url_witness:
  "network_bound (spec_Classify stdlib ''http://169.254.169.254/latest/meta-data/'')
   \<and> \<not> is_safe_url stdlib ''http://169.254.169.254/latest/meta-data/''
   \<and> index demo_env stdlib POST (Some ''http://169.254.169.254/latest/meta-data/'') [] =
       (message_page security_message, [],
        [(IsSafeUrl ''http://169.254.169.254/latest/meta-data/'', None)])"
  using index_rejects_unsafe_url[OF meta_strip meta_network_bound meta_unsafe, of demo_env "[]"]
        meta_network_bound meta_unsafe
  by (simp add: meta_parse)

lemma bracket_parse: "urlparse stdlib ''http://[github.com'' = Inl (ValueError ''Invalid IPv6 URL'')"
  unfolding stdlib_def by code_simp

lemma bracket_strip: "strip ''http://[github.com'' = ''http://[github.com''"
  by code_simp

lemma bracket_marker: "str_in ''github.com'' ''http://[github.com''"
  by code_simp

theorem index_rejects_unsafe_url_counterexample:
  "network_bound (spec_Classify stdlib ''http://[github.com'')
   \<and> \<not> is_safe_url stdlib ''http://[github.com''
   \<and> fst (index demo_env stdlib POST (Some ''http://[github.com'') []) =
       message_page ''Error: Invalid IPv6 URL''
   \<and> fst (index demo_env stdlib POST (Some ''http://[github.com'') []) \<noteq>
       message_page security_message"
proof -
  have "network_bound (spec_Classify stdlib ''http://[github.com'')"
    unfolding network_bound_classify using bracket_marker by blast
  moreover have "\<not> is_safe_url stdlib ''http://[github.com''"
    by (simp add: is_safe_url_parse_error[OF bracket_parse])
  moreover have "fst (index demo_env stdlib POST (Some ''http://[github.com'') []) =
       message_page ''Error: Invalid IPv6 URL''"
    by (simp add: index_post bracket_strip index_try_parse_error[OF bracket_parse] str_def)
  moreover have "message_page ''Error: Invalid IPv6 URL'' \<noteq> message_page security_message"
    by (simp add: message_page_def security_message_def)
  ultimately show ?thesis by simp
qed

lemma pull_strip:
  "''https://github.com/owner/repo/pull/7'' =
     strip (case Some ''  https://github.com/owner/repo/pull/7 '' of None \<Rightarrow> [] | Some v \<Rightarrow> v)"
  by code_simp

lemma pull_marker: "str_in ''github.com'' ''https://github.com/owner/repo/pull/7''"
  by code_simp

lemma pull_segment: "str_in ''/pull/'' ''https://github.com/owner/repo/pull/7''"
  by code_simp

lemma pull_safe: "is_safe_url stdlib ''https://github.com/owner/repo/pull/7''"
  by code_simp

theorem index_github_dispatch_witness:
  "str_in ''github.com'' ''https://github.com/owner/repo/pull/7''
   \<and> spec_Classify stdlib ''https://github.com/owner/repo/pull/7'' =
       PullRequestRef ''https://github.com/owner/repo/pull/7''
   \<and> retrievals (snd (snd (index demo_env stdlib POST
         (Some ''  https://github.com/owner/repo/pull/7 '') []))) =
       [ProcessGithubPullRequest ''https://github.com/owner/repo/pull/7'']"
  using index_github_dispatch[OF pull_strip pull_marker, of stdlib demo_env "[]"]
        pull_marker pull_segment pull_safe
  by simp

lemma doi_strip:
  "''10.1234/example'' = strip (case Some ''10.1234/example'' of None \<Rightarrow> [] | Some v \<Rightarrow> v)"
  by code_simp

lemma doi_parse: "urlparse stdlib ''10.1234/example'' = Inr \<lparr>scheme = [], hostname = None\<rparr>"
  unfolding stdlib_def by code_simp

lemma doi_no_marker: "\<not> str_in ''github.com'' ''10.1234/example''"
  by code_simp

lemma doi_shape: "(startswith ''10.1234/example'' ''10.'' \<and> str_in ''/'' ''10.1234/example'')
                  \<or> isdigit ''10.1234/example''"
  by code_simp

theorem index_bibliographic_dispatch_witness:
  "\<not> str_in ''github.com'' ''10.1234/example''
   \<and> urlparse stdlib ''10.1234/example'' = Inr \<lparr>scheme = [], hostname = None\<rparr>
   \<and> startswith ''10.1234/example'' ''10.'' \<and> str_in ''/'' ''10.1234/example''
   \<and> \<not> is_safe_url stdlib ''10.1234/example''
   \<and> spec_Classify stdlib ''10.1234/example'' = BibliographicRef ''10.1234/example''
   \<and> map fst (take 1 (snd (snd (index demo_env stdlib POST (Some ''10.1234/example'') [])))) =
       [ProcessDoiOrPmid ''10.1234/example'']
   \<and> retrievals (snd (snd (index demo_env stdlib POST (Some ''10.1234/example'') []))) =
       [ProcessDoiOrPmid ''10.1234/example'']
   \<and> safety_checks (snd (snd (index demo_env stdlib POST (Some ''10.1234/example'') []))) = []"
proof -
  have s: "scheme \<lparr>scheme = [], hostname = None\<rparr> \<notin> {''http'', ''https''}" by simp
  have u: "\<not> is_safe_url stdlib ''10.1234/example''"
    using is_safe_url_no_host[OF doi_parse] by simp
  have d: "startswith ''10.1234/example'' ''10.'' \<and> str_in ''/'' ''10.1234/example''"
    by code_simp
  show ?thesis
    using index_bibliographic_dispatch[OF doi_strip doi_no_marker doi_parse s doi_shape,
            of demo_env "[]"] doi_no_marker doi_parse u d
    by simp
qed

lemma passwd_strip:
  "''/etc/passwd'' = strip (case Some ''/etc/passwd'' of None \<Rightarrow> [] | Some v \<Rightarrow> v)"
  by code_simp

lemma passwd_parse: "urlparse stdlib ''/etc/passwd'' = Inr \<lparr>scheme = [], hostname = None\<rparr>"
  unfolding stdlib_def by code_simp

lemma passwd_no_marker: "\<not> str_in ''github.com'' ''/etc/passwd''"
  by code_simp

lemma passwd_no_http: "\<not> parses_as_http stdlib ''/etc/passwd''"
  by (simp add: parses_as_http_def passwd_parse)

lemma passwd_no_shape: "\<not> bibliographic_shape ''/etc/passwd''"
  by code_simp

theorem index_rejects_unrecognised_witness:
  "\<not> str_in ''github.com'' ''/etc/passwd''
   \<and> \<not> parses_as_http stdlib ''/etc/passwd''
   \<and> \<not> bibliographic_shape ''/etc/passwd''
   \<and> spec_Classify stdlib ''/etc/passwd'' = Rejected
   \<and> index demo_env stdlib POST (Some ''/etc/passwd'') [] =
       (message_page local_path_message, [], [])"
  using index_rejects_unrecognised[OF passwd_strip passwd_no_marker passwd_no_http passwd_no_shape,
          of demo_env "[]"] passwd_no_marker passwd_no_http passwd_no_shape
  by (simp add: passwd_parse)

lemma pmid_trace:
  "snd (snd (index demo_env stdlib POST (Some ''12345678'') [])) =
     [(ProcessDoiOrPmid ''12345678'', Some (Exception ''resolver unavailable''))]"
  by code_simp

theorem index_surfaces_collaborator_errors_witness:
  "(ProcessDoiOrPmid ''12345678'', Some (Exception ''resolver unavailable''))
     \<in> set (snd (snd (index demo_env stdlib POST (Some ''12345678'') [])))
   \<and> fst (index demo_env stdlib POST (Some ''12345678'') []) =
       message_page ''Error: resolver unavailable''"
proof -
  have m: "(ProcessDoiOrPmid ''12345678'', Some (Exception ''resolver unavailable''))
             \<in> set (snd (snd (index demo_env stdlib POST (Some ''12345678'') [])))"
    by (simp add: pmid_trace)
  show ?thesis
    using m index_surfaces_collaborator_errors[OF m] by (simp add: str_def)
qed

end
